theory Spec2Isabelle
  imports Complex_Main "HOL-Library.Multiset"
begin

section \<open>Numbers, dates and outcomes\<close>

text \<open>
  The optimizer and the learning agent are TypeScript. A JavaScript \<open>number\<close> is a
  double, and a finite double is a real number. Comparisons, \<open>Math.min\<close>,
  \<open>Math.ceil\<close>, \<open>Math.round\<close> and the arithmetic of integers are exact on doubles.
  Each of \<open>+\<close>, \<open>-\<close>, \<open>*\<close>, \<open>/\<close> and \<open>Math.sqrt\<close> gives the exact result rounded
  to a double. In the scheduler that rounding is a parameter of the model, the function
  \<open>fl\<close>: every operation of the source is written \<open>fl (a + b)\<close>, \<open>fl (a * b)\<close> and
  so on, in the order in which the source evaluates. A property proved for every \<open>fl\<close>
  holds for the rounding of the doubles and for exact arithmetic, where \<open>fl\<close> changes
  nothing. The inputs are finite numbers (no NaN, no infinity, no negative zero), and
  results stay in the range of the doubles.
\<close>

type_synonym rounding = "real \<Rightarrow> real"

definition exact :: rounding where
  "exact r = r"

text \<open>
  The rounding of the doubles, to the nearest double, a tie to the one with the even
  significand. A double has a significand of 53 bits: in the binade
  \<open>2^e \<le> |x| < 2^(e+1)\<close> the doubles are the multiples of \<open>2^(e-52)\<close>, and below
  \<open>2^(-1022)\<close> the multiples of \<open>2^(-1074)\<close>. The binade of a positive number is
  found by halving or doubling it into \<open>[1, 2)\<close>; 1100 steps reach every binade of
  the doubles. A result beyond the largest double would be \<open>Infinity\<close>, which this
  function does not produce.
\<close>

function binade :: "nat \<Rightarrow> real \<Rightarrow> int \<Rightarrow> int" where
  "binade fuel x e =
     (if fuel = 0 then e
      else if 2 \<le> x then binade (fuel - 1) (x / 2) (e + 1)
      else if x < 1 then binade (fuel - 1) (x * 2) (e - 1)
      else e)"
  by pat_completeness auto
termination
  by (relation "measure (\<lambda>(fuel, x, e). fuel)") auto

definition round_half_even :: "real \<Rightarrow> int" where
  "round_half_even y =
     (let n = \<lfloor>y\<rfloor>
      in if y - of_int n < 1 / 2 then n
         else if 1 / 2 < y - of_int n then n + 1
         else if even n then n else n + 1)"

definition ulp :: "real \<Rightarrow> real" where
  "ulp x = (let e = max (binade 1100 \<bar>x\<bar> 0) (- 1022)
            in if 52 \<le> e then 2 ^ nat (e - 52) else 1 / 2 ^ nat (52 - e))"

definition double :: rounding where
  "double x = (if x = 0 then 0 else sgn x * (of_int (round_half_even (\<bar>x\<bar> / ulp x)) * ulp x))"

text \<open>
  The scheduler itself creates one non-finite value from finite inputs: the initial
  \<open>Infinity\<close> of a running minimum, and the quotient of a positive energy by a
  charging rate of zero, which JavaScript evaluates to \<open>+Infinity\<close>. A variable that
  can hold it has type \<open>jsnum\<close>.
\<close>

datatype jsnum = Finite real | PosInfinity

text \<open>\<open>x < y\<close> for a finite \<open>x\<close>.\<close>

fun js_less :: "real \<Rightarrow> jsnum \<Rightarrow> bool" where
  "js_less x (Finite y) = (x < y)"
| "js_less x PosInfinity = True"

text \<open>\<open>Math.ceil\<close>, \<open>y + c\<close> and \<open>x / y\<close> (a finite \<open>x\<close> over infinity is 0).\<close>

fun js_ceil :: "jsnum \<Rightarrow> jsnum" where
  "js_ceil (Finite y) = Finite (of_int \<lceil>y\<rceil>)"
| "js_ceil PosInfinity = PosInfinity"

fun js_plus :: "rounding \<Rightarrow> jsnum \<Rightarrow> real \<Rightarrow> jsnum" where
  "js_plus fl (Finite y) c = Finite (fl (y + c))"
| "js_plus fl PosInfinity c = PosInfinity"

fun js_over :: "rounding \<Rightarrow> real \<Rightarrow> jsnum \<Rightarrow> real" where
  "js_over fl x (Finite y) = fl (x / y)"
| "js_over fl x PosInfinity = 0"

text \<open>
  \<open>energyNeeded / effectiveChargingRate\<close>: the caller has checked
  \<open>energyNeeded > 0\<close>, so a rate of zero gives \<open>+Infinity\<close>.
\<close>

definition js_quotient :: "rounding \<Rightarrow> real \<Rightarrow> real \<Rightarrow> jsnum" where
  "js_quotient fl x y = (if y = 0 then PosInfinity else Finite (fl (x / y)))"

text \<open>
  \<open>Math.round\<close> rounds the double it is given to the nearest integer, halves
  upwards.
\<close>

definition js_round :: "real \<Rightarrow> real" where
  "js_round x = of_int \<lfloor>x + 1 / 2\<rfloor>"

text \<open>
  A \<open>Date\<close> object holds a time value in milliseconds since the epoch, or is an
  Invalid Date. \<open>TimeClip\<close> truncates towards zero and rejects what lies beyond
  8.64e15 ms.
\<close>

datatype date = Valid int | Invalid_Date

definition time_clip :: "real \<Rightarrow> date" where
  "time_clip t =
     (if \<bar>t\<bar> \<le> 8640000000000000
      then Valid (if 0 \<le> t then \<lfloor>t\<rfloor> else \<lceil>t\<rceil>)
      else Invalid_Date)"

text \<open>
  The wall clock: \<open>Date.now()\<close> in milliseconds, and the offset of local time, which
  \<open>getHours\<close>, \<open>setHours\<close> and \<open>setDate\<close> work in. One value of \<open>clock\<close>
  is the frozen instant of a whole call.
\<close>

record clock =
  now_ms :: int
  tz_offset_ms :: int

definition getHours :: "clock \<Rightarrow> nat" where
  "getHours c = nat (((now_ms c + tz_offset_ms c) div 3600000) mod 24)"

text \<open>
  A call returns a value, throws, or does not return: \<open>Some (Inr v)\<close>,
  \<open>Some (Inl e)\<close> and \<open>None\<close>.
\<close>

datatype error = TypeError

type_synonym 'a outcome = "(error + 'a) option"

section \<open>Data model\<close>

record Location =
  loc_x :: real
  loc_y :: real

record TripSchedule =
  departure :: int
  arrival :: int
  destination :: "string option"

datatype vehicle_status = Idle | Charging | In_use | Maintenance

record ElectricVehicle =
  vehicle_id :: string
  battery_capacity :: real
  current_charge :: real
  soc :: real
  location :: Location
  trip_schedule :: "TripSchedule list"
  status :: vehicle_status
  model :: string
  charging_speed :: real

datatype station_type = Fast | Standard | Ultra_fast

record ChargingStation =
  station_id :: string
  station_location :: Location
  max_power :: real
  available :: bool
  current_usage :: real
  occupied_by :: "string option"
  type :: station_type

datatype period = Peak | Off_peak | Shoulder

record EnergyPricing =
  pricing_hour :: real
  price :: real
  period :: period
  demand :: real

datatype priority = High | Medium | Low

record ChargingPlan =
  plan_vehicle_id :: string
  plan_station_id :: string
  start_time :: date
  end_time :: date
  energy_to_charge :: real
  estimated_cost :: real
  plan_priority :: priority
  distance_to_station :: real

section \<open>Distance and cost utilities\<close>

definition calculateDistance :: "rounding \<Rightarrow> Location \<Rightarrow> Location \<Rightarrow> real" where
  "calculateDistance fl loc1 loc2 =
     (let dx = fl (loc_x loc1 - loc_x loc2); dy = fl (loc_y loc1 - loc_y loc2)
      in fl (sqrt (fl (fl (dx * dx) + fl (dy * dy)))))"

text \<open>
  The loop of \<open>calculateChargingCost\<close>, with its counter \<open>i\<close> and its
  accumulator \<open>totalCost\<close>. It reads \<open>pricing[hour].price\<close>, which throws a
  TypeError where the table has no entry, and it does not end when \<open>hoursToCharge\<close>
  is infinite. The quotient \<open>energyAmount / durationHours\<close> is evaluated inside the
  loop only, so for a positive duration only.
\<close>

partial_function (option) chargingCostLoop ::
  "rounding \<Rightarrow> nat \<Rightarrow> jsnum \<Rightarrow> real \<Rightarrow> real \<Rightarrow> nat \<Rightarrow> jsnum \<Rightarrow> EnergyPricing list \<Rightarrow>
   real outcome"
where
  "chargingCostLoop fl i hoursToCharge totalCost energyAmount startHour durationHours pricing =
     (if js_less (real i) hoursToCharge then
        (let hour = (startHour + i) mod 24 in
         if hour < length pricing then
           (let hourlyPrice = price (pricing ! hour);
                energyThisHour = min (js_over fl energyAmount durationHours) energyAmount
            in chargingCostLoop fl (i + 1) hoursToCharge
                 (fl (totalCost + fl (energyThisHour * hourlyPrice)))
                 energyAmount startHour durationHours pricing)
         else Some (Inl TypeError))
      else Some (Inr totalCost))"

definition calculateChargingCost ::
  "rounding \<Rightarrow> real \<Rightarrow> nat \<Rightarrow> jsnum \<Rightarrow> EnergyPricing list \<Rightarrow> real outcome" where
  "calculateChargingCost fl energyAmount startHour durationHours pricing =
     chargingCostLoop fl 0 (js_ceil durationHours) 0 energyAmount startHour durationHours pricing"

text \<open>
  The hourly cost model as the specification words it: \<open>ceil(duration)\<close> hourly
  buckets from the start hour, wrapping at 24, each contributing
  \<open>min(energy/duration, energy)\<close> at the price of its hour.
\<close>

definition hourly_cost_model :: "real \<Rightarrow> nat \<Rightarrow> real \<Rightarrow> EnergyPricing list \<Rightarrow> real" where
  "hourly_cost_model E h d pricing =
     (\<Sum>i = 0..<nat \<lceil>d\<rceil>. min (E / d) E * price (pricing ! ((h + i) mod 24)))"

text \<open>
  The same sum as the machine accumulates it: bucket by bucket from the start hour, each
  product and each partial sum rounded.
\<close>

definition machine_cost ::
  "rounding \<Rightarrow> real \<Rightarrow> nat \<Rightarrow> real \<Rightarrow> EnergyPricing list \<Rightarrow> real" where
  "machine_cost fl E h d pricing =
     foldl (\<lambda>totalCost i.
              fl (totalCost + fl (min (fl (E / d)) E * price (pricing ! ((h + i) mod 24)))))
       0 [0..<nat \<lceil>d\<rceil>]"

section \<open>Priority classifier\<close>

text \<open>\<open>(trip.departure.getTime() - Date.now()) / (1000 * 60 * 60)\<close>\<close>

definition hoursUntilTrip :: "rounding \<Rightarrow> clock \<Rightarrow> TripSchedule \<Rightarrow> real" where
  "hoursUntilTrip fl c trip = fl (real_of_int (departure trip - now_ms c) / (1000 * 60 * 60))"

definition calculatePriority :: "rounding \<Rightarrow> clock \<Rightarrow> ElectricVehicle \<Rightarrow> priority" where
  "calculatePriority fl c vehicle =
     (if soc vehicle < 30 \<and> 0 < length (trip_schedule vehicle) \<and>
         hoursUntilTrip fl c (trip_schedule vehicle ! 0) < 6
      then High
      else if soc vehicle < 30 then High
      else if soc vehicle < 60 \<and> 0 < length (trip_schedule vehicle) then Medium
      else Low)"

text \<open>
  The ordered rules of the specification: the next trip is the first entry of the trip
  schedule, and a rule applies only if no earlier one did.
\<close>

definition next_trip_within :: "rounding \<Rightarrow> clock \<Rightarrow> ElectricVehicle \<Rightarrow> real \<Rightarrow> bool" where
  "next_trip_within fl c vehicle h =
     (case trip_schedule vehicle of [] \<Rightarrow> False | trip # _ \<Rightarrow> hoursUntilTrip fl c trip < h)"

fun first_match :: "(bool \<times> priority) list \<Rightarrow> priority \<Rightarrow> priority" where
  "first_match [] otherwise = otherwise"
| "first_match ((cond, tier) # rules) otherwise =
     (if cond then tier else first_match rules otherwise)"

definition priority_rules :: "rounding \<Rightarrow> clock \<Rightarrow> ElectricVehicle \<Rightarrow> priority" where
  "priority_rules fl c vehicle =
     first_match
       [(soc vehicle < 30 \<and> next_trip_within fl c vehicle 6, High),
        (soc vehicle < 30 \<and> \<not> next_trip_within fl c vehicle 6, High),
        (soc vehicle < 60 \<and> trip_schedule vehicle \<noteq> [], Medium)]
       Low"

section \<open>Optimal window finder\<close>

text \<open>
  The scan of \<open>findOptimalChargingWindow\<close> over \<open>hour = currentHour, ...,
  currentHour + 23\<close>, with the running \<open>minCost\<close> (initially \<open>Infinity\<close>) and
  \<open>optimalHour\<close>.
\<close>

function windowLoop ::
  "rounding \<Rightarrow> nat \<Rightarrow> nat \<Rightarrow> jsnum \<Rightarrow> nat \<Rightarrow> jsnum \<Rightarrow> EnergyPricing list \<Rightarrow> nat outcome"
where
  "windowLoop fl hour currentHour minCost optimalHour durationHours pricing =
     (if hour < currentHour + 24 then
        (let actualHour = hour mod 24 in
         case calculateChargingCost fl 1 actualHour durationHours pricing of
           None \<Rightarrow> None
         | Some (Inl e) \<Rightarrow> Some (Inl e)
         | Some (Inr cost) \<Rightarrow>
             if js_less cost minCost
             then windowLoop fl (hour + 1) currentHour (Finite cost) actualHour durationHours
                    pricing
             else windowLoop fl (hour + 1) currentHour minCost optimalHour durationHours
                    pricing)
      else Some (Inr optimalHour))"
  by pat_completeness auto
termination
  by (relation "measure (\<lambda>(fl, hour, currentHour, _). currentHour + 24 - hour)") auto

definition findOptimalChargingWindow ::
  "rounding \<Rightarrow> clock \<Rightarrow> ElectricVehicle \<Rightarrow> jsnum \<Rightarrow> EnergyPricing list \<Rightarrow> nat outcome" where
  "findOptimalChargingWindow fl c vehicle durationHours pricing =
     (let currentHour = getHours c in
      if 0 < length (trip_schedule vehicle) \<and>
         js_less (hoursUntilTrip fl c (trip_schedule vehicle ! 0)) (js_plus fl durationHours 2)
      then Some (Inr currentHour)
      else windowLoop fl currentHour currentHour PosInfinity currentHour durationHours pricing)"

section \<open>Scheduler\<close>

fun priorityOrder :: "priority \<Rightarrow> int" where
  "priorityOrder High = 3"
| "priorityOrder Medium = 2"
| "priorityOrder Low = 1"

text \<open>
  \<open>Array.prototype.sort\<close> with a comparator is stable: of two elements that compare
  equal, the one that came first stays first. Insertion into the sorted rest of the array
  is that sort.
\<close>

fun insert_by :: "('a \<Rightarrow> 'a \<Rightarrow> int) \<Rightarrow> 'a \<Rightarrow> 'a list \<Rightarrow> 'a list" where
  "insert_by cmp a [] = [a]"
| "insert_by cmp a (b # bs) =
     (if cmp a b \<le> 0 then a # b # bs else b # insert_by cmp a bs)"

definition js_sort :: "('a \<Rightarrow> 'a \<Rightarrow> int) \<Rightarrow> 'a list \<Rightarrow> 'a list" where
  "js_sort cmp as = foldr (insert_by cmp) as []"

text \<open>
  The search for the nearest station. \<open>nearestStation = null\<close> with
  \<open>minDistance = Infinity\<close> is \<open>None\<close>; a distance is finite, so it is below
  \<open>Infinity\<close>.
\<close>

fun nearestLoop ::
  "rounding \<Rightarrow> ChargingStation list \<Rightarrow> (string \<rightharpoonup> string) \<Rightarrow> ElectricVehicle \<Rightarrow>
   (ChargingStation \<times> real) option \<Rightarrow> (ChargingStation \<times> real) option" where
  "nearestLoop fl [] stationAssignments vehicle nearest = nearest"
| "nearestLoop fl (station # rest) stationAssignments vehicle nearest =
     (if station_id station \<in> dom stationAssignments
      then nearestLoop fl rest stationAssignments vehicle nearest
      else
        (let distance = calculateDistance fl (location vehicle) (station_location station) in
         if (case nearest of None \<Rightarrow> True | Some (_, minDistance) \<Rightarrow> distance < minDistance)
         then nearestLoop fl rest stationAssignments vehicle (Some (station, distance))
         else nearestLoop fl rest stationAssignments vehicle nearest))"

text \<open>\<open>setDate(getDate() + 1)\<close>, \<open>setHours(h, 0, 0, 0)\<close> and the end of charging.\<close>

fun setNextDay :: "date \<Rightarrow> date" where
  "setNextDay (Valid t) = time_clip (real_of_int (t + 86400000))"
| "setNextDay Invalid_Date = Invalid_Date"

fun setHours :: "clock \<Rightarrow> nat \<Rightarrow> date \<Rightarrow> date" where
  "setHours c h (Valid t) =
     (let local = t + tz_offset_ms c;
          midnight = local - local mod 86400000
      in time_clip (real_of_int (midnight + int h * 3600000 - tz_offset_ms c)))"
| "setHours c h Invalid_Date = Invalid_Date"

fun addHours :: "rounding \<Rightarrow> date \<Rightarrow> jsnum \<Rightarrow> date" where
  "addHours fl (Valid t) (Finite d) =
     time_clip (fl (real_of_int t + fl (fl (fl (d * 60) * 60) * 1000)))"
| "addHours fl (Valid t) PosInfinity = Invalid_Date"
| "addHours fl Invalid_Date d = Invalid_Date"

text \<open>
  The body of the scheduling loop once a station is found: duration, start window,
  times, cost and the plan.
\<close>

definition buildPlan ::
  "rounding \<Rightarrow> clock \<Rightarrow> EnergyPricing list \<Rightarrow> ElectricVehicle \<Rightarrow> real \<Rightarrow> ChargingStation \<Rightarrow>
   real \<Rightarrow> ChargingPlan outcome" where
  "buildPlan fl c pricing vehicle energyNeeded nearestStation minDistance =
     (let effectiveChargingRate = min (max_power nearestStation) (charging_speed vehicle);
          chargingDurationHours = js_quotient fl energyNeeded effectiveChargingRate;
          priority = calculatePriority fl c vehicle
      in case findOptimalChargingWindow fl c vehicle chargingDurationHours pricing of
           None \<Rightarrow> None
         | Some (Inl e) \<Rightarrow> Some (Inl e)
         | Some (Inr optimalStartHour) \<Rightarrow>
             (let now = Valid (now_ms c);
                  startTime = now;
                  startTime = (if optimalStartHour < getHours c \<and> priority \<noteq> High
                               then setNextDay startTime else startTime);
                  startTime = setHours c optimalStartHour startTime;
                  startTime = (if priority = High then now else startTime);
                  endTime = addHours fl startTime chargingDurationHours
              in case calculateChargingCost fl energyNeeded optimalStartHour
                        chargingDurationHours pricing of
                   None \<Rightarrow> None
                 | Some (Inl e) \<Rightarrow> Some (Inl e)
                 | Some (Inr estimatedCost) \<Rightarrow>
                     Some (Inr \<lparr>plan_vehicle_id = vehicle_id vehicle,
                                plan_station_id = station_id nearestStation,
                                start_time = startTime,
                                end_time = endTime,
                                energy_to_charge =
                                  fl (js_round (fl (energyNeeded * 10)) / 10),
                                estimated_cost =
                                  fl (js_round (fl (estimatedCost * 100)) / 100),
                                plan_priority = priority,
                                distance_to_station =
                                  fl (js_round (fl (minDistance * 10)) / 10)\<rparr>)))"

text \<open>
  The loop over the sorted vehicles. Its state is the map \<open>stationAssignments\<close> and
  the array \<open>plans\<close> it appends to; it returns the state it ends in.
\<close>

definition energyNeeded :: "rounding \<Rightarrow> ElectricVehicle \<Rightarrow> real" where
  "energyNeeded fl vehicle =
     (let targetSoC = 90
      in fl (fl (battery_capacity vehicle * fl (targetSoC - soc vehicle)) / 100))"

fun scheduleLoop ::
  "rounding \<Rightarrow> clock \<Rightarrow> ChargingStation list \<Rightarrow> EnergyPricing list \<Rightarrow> ElectricVehicle list \<Rightarrow>
   (string \<rightharpoonup> string) \<Rightarrow> ChargingPlan list \<Rightarrow>
   ((string \<rightharpoonup> string) \<times> ChargingPlan list) outcome" where
  "scheduleLoop fl c availableStations pricing [] stationAssignments plans =
     Some (Inr (stationAssignments, plans))"
| "scheduleLoop fl c availableStations pricing (vehicle # rest) stationAssignments plans =
     (if energyNeeded fl vehicle \<le> 0
      then scheduleLoop fl c availableStations pricing rest stationAssignments plans
      else
        (case nearestLoop fl availableStations stationAssignments vehicle None of
           None \<Rightarrow> scheduleLoop fl c availableStations pricing rest stationAssignments plans
         | Some (nearestStation, minDistance) \<Rightarrow>
             (case buildPlan fl c pricing vehicle (energyNeeded fl vehicle) nearestStation
                     minDistance of
                None \<Rightarrow> None
              | Some (Inl e) \<Rightarrow> Some (Inl e)
              | Some (Inr plan) \<Rightarrow>
                  scheduleLoop fl c availableStations pricing rest
                    (stationAssignments(station_id nearestStation \<mapsto> vehicle_id vehicle))
                    (plans @ [plan]))))"

definition needsCharge :: "ElectricVehicle \<Rightarrow> bool" where
  "needsCharge v = (soc v < 80 \<and> status v \<noteq> Maintenance \<and> status v \<noteq> In_use)"

definition comparePriority ::
  "rounding \<Rightarrow> clock \<Rightarrow> ElectricVehicle \<Rightarrow> ElectricVehicle \<Rightarrow> int" where
  "comparePriority fl c a b =
     (let aPriority = calculatePriority fl c a; bPriority = calculatePriority fl c b
      in priorityOrder bPriority - priorityOrder aPriority)"

definition sortedVehicles ::
  "rounding \<Rightarrow> clock \<Rightarrow> ElectricVehicle list \<Rightarrow> ElectricVehicle list" where
  "sortedVehicles fl c fleet =
     (let vehiclesNeedingCharge = filter needsCharge fleet
      in js_sort (comparePriority fl c) vehiclesNeedingCharge)"

definition optimizeChargingSchedule ::
  "rounding \<Rightarrow> clock \<Rightarrow> ElectricVehicle list \<Rightarrow> ChargingStation list \<Rightarrow> EnergyPricing list \<Rightarrow>
   ChargingPlan list outcome" where
  "optimizeChargingSchedule fl c fleet stations pricing =
     (let availableStations = filter available stations
      in case scheduleLoop fl c availableStations pricing (sortedVehicles fl c fleet)
                Map.empty [] of
           None \<Rightarrow> None
         | Some (Inl e) \<Rightarrow> Some (Inl e)
         | Some (Inr (stationAssignments, plans)) \<Rightarrow> Some (Inr plans))"

section \<open>The scheduler as a program with effects\<close>

text \<open>
  The functions above take the wall clock as a value, the same for a whole call. The code
  reads the clock anew at every \<open>Date.now()\<close> and \<open>new Date()\<close>, and it works on
  arrays that it shares with its caller. This section writes these effects out. The state
  of the runtime is the number of reads of the clock so far and the heap of the arrays of
  vehicles, the address of an array being its index. The clock is a timeline: the instant
  that the \<open>k\<close>-th read returns. A function with effects takes the runtime and returns
  its result together with the runtime it leaves. Where a call does not return, the
  result is \<open>None\<close>.
\<close>

type_synonym timeline = "nat \<Rightarrow> clock"

record runtime =
  clock_reads :: nat
  vehicle_arrays :: "ElectricVehicle list list"

text \<open>\<open>Date.now()\<close> and \<open>new Date()\<close>: one read of the clock.\<close>

definition read_clock :: "timeline \<Rightarrow> runtime \<Rightarrow> clock \<times> runtime" where
  "read_clock wall rt = (wall (clock_reads rt), rt\<lparr>clock_reads := clock_reads rt + 1\<rparr>)"

text \<open>
  \<open>calculatePriority\<close> reads the clock only for a vehicle under 30 percent that has a
  trip.
\<close>

definition calculatePriority_io ::
  "timeline \<Rightarrow> rounding \<Rightarrow> ElectricVehicle \<Rightarrow> runtime \<Rightarrow> priority \<times> runtime" where
  "calculatePriority_io wall fl vehicle rt =
     (let rest = (if soc vehicle < 30 then High
                  else if soc vehicle < 60 \<and> 0 < length (trip_schedule vehicle) then Medium
                  else Low)
      in if soc vehicle < 30 \<and> 0 < length (trip_schedule vehicle) then
           (let (c, rt1) = read_clock wall rt in
            if hoursUntilTrip fl c (trip_schedule vehicle ! 0) < 6 then (High, rt1)
            else (rest, rt1))
         else (rest, rt))"

text \<open>
  \<open>findOptimalChargingWindow\<close> reads the clock for the current hour, and once more for
  the time until the trip when there is one.
\<close>

definition findOptimalChargingWindow_io ::
  "timeline \<Rightarrow> rounding \<Rightarrow> ElectricVehicle \<Rightarrow> jsnum \<Rightarrow> EnergyPricing list \<Rightarrow> runtime \<Rightarrow>
   nat outcome \<times> runtime" where
  "findOptimalChargingWindow_io wall fl vehicle durationHours pricing rt =
     (let (c, rt1) = read_clock wall rt;
          currentHour = getHours c;
          scan = windowLoop fl currentHour currentHour PosInfinity currentHour durationHours
                   pricing
      in if 0 < length (trip_schedule vehicle) then
           (let (c2, rt2) = read_clock wall rt1 in
            if js_less (hoursUntilTrip fl c2 (trip_schedule vehicle ! 0))
                 (js_plus fl durationHours 2)
            then (Some (Inr currentHour), rt2)
            else (scan, rt2))
         else (scan, rt1))"

text \<open>
  The body of the scheduling loop: the priority, the window, then \<open>new Date()\<close> for
  \<open>now\<close>, from which the start time is set.
\<close>

definition buildPlan_io ::
  "timeline \<Rightarrow> rounding \<Rightarrow> EnergyPricing list \<Rightarrow> ElectricVehicle \<Rightarrow> real \<Rightarrow> ChargingStation \<Rightarrow>
   real \<Rightarrow> runtime \<Rightarrow> ChargingPlan outcome \<times> runtime" where
  "buildPlan_io wall fl pricing vehicle energy nearestStation minDistance rt =
     (let effectiveChargingRate = min (max_power nearestStation) (charging_speed vehicle);
          chargingDurationHours = js_quotient fl energy effectiveChargingRate;
          (priority, rt1) = calculatePriority_io wall fl vehicle rt;
          (window, rt2) =
             findOptimalChargingWindow_io wall fl vehicle chargingDurationHours pricing rt1
      in case window of
           None \<Rightarrow> (None, rt2)
         | Some (Inl e) \<Rightarrow> (Some (Inl e), rt2)
         | Some (Inr optimalStartHour) \<Rightarrow>
             (let (c, rt3) = read_clock wall rt2;
                  now = Valid (now_ms c);
                  startTime = now;
                  startTime = (if optimalStartHour < getHours c \<and> priority \<noteq> High
                               then setNextDay startTime else startTime);
                  startTime = setHours c optimalStartHour startTime;
                  startTime = (if priority = High then now else startTime);
                  endTime = addHours fl startTime chargingDurationHours
              in case calculateChargingCost fl energy optimalStartHour
                        chargingDurationHours pricing of
                   None \<Rightarrow> (None, rt3)
                 | Some (Inl e) \<Rightarrow> (Some (Inl e), rt3)
                 | Some (Inr estimatedCost) \<Rightarrow>
                     (Some (Inr \<lparr>plan_vehicle_id = vehicle_id vehicle,
                                 plan_station_id = station_id nearestStation,
                                 start_time = startTime,
                                 end_time = endTime,
                                 energy_to_charge =
                                   fl (js_round (fl (energy * 10)) / 10),
                                 estimated_cost =
                                   fl (js_round (fl (estimatedCost * 100)) / 100),
                                 plan_priority = priority,
                                 distance_to_station =
                                   fl (js_round (fl (minDistance * 10)) / 10)\<rparr>), rt3)))"

fun scheduleLoop_io ::
  "timeline \<Rightarrow> rounding \<Rightarrow> ChargingStation list \<Rightarrow> EnergyPricing list \<Rightarrow> ElectricVehicle list \<Rightarrow>
   (string \<rightharpoonup> string) \<Rightarrow> ChargingPlan list \<Rightarrow> runtime \<Rightarrow>
   ((string \<rightharpoonup> string) \<times> ChargingPlan list) outcome \<times> runtime" where
  "scheduleLoop_io wall fl availableStations pricing [] stationAssignments plans rt =
     (Some (Inr (stationAssignments, plans)), rt)"
| "scheduleLoop_io wall fl availableStations pricing (vehicle # rest) stationAssignments plans rt =
     (if energyNeeded fl vehicle \<le> 0
      then scheduleLoop_io wall fl availableStations pricing rest stationAssignments plans rt
      else
        (case nearestLoop fl availableStations stationAssignments vehicle None of
           None \<Rightarrow>
             scheduleLoop_io wall fl availableStations pricing rest stationAssignments plans rt
         | Some (nearestStation, minDistance) \<Rightarrow>
             (let (built, rt1) =
                    buildPlan_io wall fl pricing vehicle (energyNeeded fl vehicle) nearestStation
                      minDistance rt
              in case built of
                   None \<Rightarrow> (None, rt1)
                 | Some (Inl e) \<Rightarrow> (Some (Inl e), rt1)
                 | Some (Inr plan) \<Rightarrow>
                     scheduleLoop_io wall fl availableStations pricing rest
                       (stationAssignments(station_id nearestStation \<mapsto> vehicle_id vehicle))
                       (plans @ [plan]) rt1)))"

text \<open>
  The comparator of the sort computes both priorities, that of \<open>a\<close> first. The sort
  calls the comparator in the order of the insertion sort. The order of these calls is
  the engine's; it shows only when the clock moves between them.
\<close>

definition comparePriority_io ::
  "timeline \<Rightarrow> rounding \<Rightarrow> ElectricVehicle \<Rightarrow> ElectricVehicle \<Rightarrow> runtime \<Rightarrow> int \<times> runtime" where
  "comparePriority_io wall fl a b rt =
     (let (aPriority, rt1) = calculatePriority_io wall fl a rt;
          (bPriority, rt2) = calculatePriority_io wall fl b rt1
      in (priorityOrder bPriority - priorityOrder aPriority, rt2))"

fun insert_by_io ::
  "('a \<Rightarrow> 'a \<Rightarrow> runtime \<Rightarrow> int \<times> runtime) \<Rightarrow> 'a \<Rightarrow> 'a list \<Rightarrow> runtime \<Rightarrow> 'a list \<times> runtime" where
  "insert_by_io cmp a [] rt = ([a], rt)"
| "insert_by_io cmp a (b # bs) rt =
     (let (r, rt1) = cmp a b rt in
      if r \<le> 0 then (a # b # bs, rt1)
      else (let (rest, rt2) = insert_by_io cmp a bs rt1 in (b # rest, rt2)))"

fun js_sort_io ::
  "('a \<Rightarrow> 'a \<Rightarrow> runtime \<Rightarrow> int \<times> runtime) \<Rightarrow> 'a list \<Rightarrow> runtime \<Rightarrow> 'a list \<times> runtime" where
  "js_sort_io cmp [] rt = ([], rt)"
| "js_sort_io cmp (a # as) rt =
     (let (sorted, rt1) = js_sort_io cmp as rt in insert_by_io cmp a sorted rt1)"

text \<open>
  \<open>Array.prototype.filter\<close> allocates a new array and leaves its own as it is.
  \<open>Array.prototype.sort\<close> sorts the array it is applied to in place, and returns it.
\<close>

definition filter_array :: "(ElectricVehicle \<Rightarrow> bool) \<Rightarrow> nat \<Rightarrow> runtime \<Rightarrow> nat \<times> runtime" where
  "filter_array keep a rt =
     (length (vehicle_arrays rt),
      rt\<lparr>vehicle_arrays := vehicle_arrays rt @ [filter keep (vehicle_arrays rt ! a)]\<rparr>)"

definition sort_array ::
  "(ElectricVehicle \<Rightarrow> ElectricVehicle \<Rightarrow> runtime \<Rightarrow> int \<times> runtime) \<Rightarrow> nat \<Rightarrow> runtime \<Rightarrow>
   nat \<times> runtime" where
  "sort_array cmp a rt =
     (let (sorted, rt1) = js_sort_io cmp (vehicle_arrays rt ! a) rt
      in (a, rt1\<lparr>vehicle_arrays := (vehicle_arrays rt1)[a := sorted]\<rparr>))"

text \<open>
  The optimizer, given the address of the fleet. The sorted array is the filtered one,
  at the same address. The stations and the prices are only read (\<open>filter\<close> builds a
  new array of stations, a price is read by its index) and are passed as values.
\<close>

definition optimizeChargingSchedule_io ::
  "timeline \<Rightarrow> rounding \<Rightarrow> nat \<Rightarrow> ChargingStation list \<Rightarrow> EnergyPricing list \<Rightarrow> runtime \<Rightarrow>
   ChargingPlan list outcome \<times> runtime" where
  "optimizeChargingSchedule_io wall fl fleet stations pricing rt =
     (let availableStations = filter available stations;
          (vehiclesNeedingCharge, rt1) = filter_array needsCharge fleet rt;
          (sortedVehicles, rt2) =
             sort_array (comparePriority_io wall fl) vehiclesNeedingCharge rt1;
          (loop, rt3) =
             scheduleLoop_io wall fl availableStations pricing (vehicle_arrays rt2 ! sortedVehicles)
               Map.empty [] rt2
      in case loop of
           None \<Rightarrow> (None, rt3)
         | Some (Inl e) \<Rightarrow> (Some (Inl e), rt3)
         | Some (Inr (stationAssignments, plans)) \<Rightarrow> (Some (Inr plans), rt3))"

text \<open>A clock frozen at \<open>c\<close>: every read returns \<open>c\<close>.\<close>

definition frozen :: "timeline \<Rightarrow> clock \<Rightarrow> bool" where
  "frozen wall c = (\<forall>k. wall k = c)"

section \<open>Q-learning agent\<close>

text \<open>
  The arithmetic of the agent is modelled exact: the values it stores differ from the
  doubles of the code in their last bits only, and the properties below are about which
  entries exist and how an update is composed, not about a comparison of stored values.
\<close>

record State =
  state_hour :: real
  vehicleSoC :: real
  state_energyPrice :: real
  state_stationAvailability :: real

datatype urgency = Low_urgency | Medium_urgency | High_urgency

record Action =
  shouldCharge :: bool
  targetSoC :: real
  urgency :: urgency

text \<open>
  The keys of the table are template strings, built from the four buckets of a state
  and from the three fields of an action, joined by \<open>-\<close>. Two keys are the same string
  exactly when their components are the same, so a key is modelled as the tuple of its
  components.
\<close>

datatype bucket = Bucket_high | Bucket_med | Bucket_low

type_synonym state_key = "int \<times> int \<times> bucket \<times> bucket"

type_synonym action_key = "bool \<times> real \<times> urgency"

record QValue =
  qv_state :: state_key
  qv_action :: action_key
  qv_value :: real
  qv_visits :: int

text \<open>
  The fields of the agent that change. \<open>learningRate\<close>, \<open>discountFactor\<close> and
  \<open>epsilon\<close> are private fields that keep their initial values.
\<close>

record Agent =
  qTable :: "state_key \<rightharpoonup> (action_key \<rightharpoonup> QValue)"
  rewardHistory :: "real list"

definition learningRate :: real where
  "learningRate = 0.1"

definition discountFactor :: real where
  "discountFactor = 0.95"


definition new_Agent :: Agent where
  "new_Agent = \<lparr>qTable = Map.empty, rewardHistory = []\<rparr>"

definition stateToKey :: "State \<Rightarrow> state_key" where
  "stateToKey state =
     (let hourBucket = \<lfloor>state_hour state / 4\<rfloor>;
          socBucket = \<lfloor>vehicleSoC state / 20\<rfloor>;
          priceBucket = (if state_energyPrice state > 0.15 then Bucket_high
                         else if state_energyPrice state > 0.10 then Bucket_med else Bucket_low);
          availBucket = (if state_stationAvailability state > 0.7 then Bucket_high
                         else if state_stationAvailability state > 0.4 then Bucket_med
                         else Bucket_low)
      in (hourBucket, socBucket, priceBucket, availBucket))"

definition actionToKey :: "Action \<Rightarrow> action_key" where
  "actionToKey action = (shouldCharge action, targetSoC action, urgency action)"

text \<open>
  \<open>getQValue\<close> returns the stored value and the agent after the call: it creates the
  map of the state and the entry of the action when they are missing.
\<close>

definition getQValue :: "Agent \<Rightarrow> State \<Rightarrow> Action \<Rightarrow> real \<times> Agent" where
  "getQValue this state action =
     (let stateKey = stateToKey state;
          actionKey = actionToKey action;
          table = (if stateKey \<notin> dom (qTable this)
                   then (qTable this)(stateKey \<mapsto> Map.empty) else qTable this);
          actions = the (table stateKey);
          actions = (if actionKey \<notin> dom actions
                     then actions(actionKey \<mapsto>
                            \<lparr>qv_state = stateKey, qv_action = actionKey,
                             qv_value = 0, qv_visits = 0\<rparr>)
                     else actions)
      in (qv_value (the (actions actionKey)),
          this\<lparr>qTable := table(stateKey \<mapsto> actions)\<rparr>))"

definition getPossibleActions :: "State \<Rightarrow> Action list" where
  "getPossibleActions state =
     (let shouldChargeOptions = [True, False];
          targetSoCOptions = [80, 90, 100];
          urgencyOptions = [Low_urgency, Medium_urgency, High_urgency]
      in concat (map (\<lambda>shouldCharge.
           if \<not> shouldCharge
           then [\<lparr>shouldCharge = False, targetSoC = 0, urgency = Low_urgency\<rparr>]
           else concat (map (\<lambda>targetSoC.
                  map (\<lambda>urgency.
                    \<lparr>shouldCharge = shouldCharge, targetSoC = targetSoC, urgency = urgency\<rparr>)
                    urgencyOptions)
                  targetSoCOptions))
           shouldChargeOptions))"

text \<open>\<open>nextActions.map(a => this.getQValue(nextState, a))\<close>, threading the agent.\<close>

fun getQValues :: "Agent \<Rightarrow> State \<Rightarrow> Action list \<Rightarrow> real list \<times> Agent" where
  "getQValues this state [] = ([], this)"
| "getQValues this state (a # rest) =
     (let (q, this) = getQValue this state a;
          (qs, this) = getQValues this state rest
      in (q # qs, this))"

text \<open>\<open>Math.max(...values)\<close> of a list that is not empty (the action list has 10 entries).\<close>

definition math_max :: "real list \<Rightarrow> real" where
  "math_max vs = fold max (tl vs) (hd vs)"

definition updateQValue :: "Agent \<Rightarrow> State \<Rightarrow> Action \<Rightarrow> real \<Rightarrow> State \<Rightarrow> Agent" where
  "updateQValue this state action reward nextState =
     (let stateKey = stateToKey state;
          actionKey = actionToKey action;
          (currentQ, this) = getQValue this state action;
          nextActions = getPossibleActions nextState;
          (nextQs, this) = getQValues this nextState nextActions;
          maxNextQ = math_max nextQs;
          newQ = currentQ + learningRate * (reward + discountFactor * maxNextQ - currentQ);
          actions = the (qTable this stateKey);
          qValue = the (actions actionKey);
          qValue = qValue\<lparr>qv_value := newQ, qv_visits := qv_visits qValue + 1\<rparr>
      in this\<lparr>qTable := (qTable this)(stateKey \<mapsto> actions(actionKey \<mapsto> qValue)),
              rewardHistory := rewardHistory this @ [reward]\<rparr>)"

definition learn :: "Agent \<Rightarrow> State \<Rightarrow> Action \<Rightarrow> real \<Rightarrow> State \<Rightarrow> Agent" where
  "learn this state action reward nextState = updateQValue this state action reward nextState"







section \<open>Notions the properties are stated with\<close>




text \<open>
  What a conforming \<open>Array.prototype.sort\<close> may return for the comparator of the
  optimizer: a rearrangement of the array, in the order of the comparator, the vehicles
  of equal priority in their original order.
\<close>

definition priorityKey :: "rounding \<Rightarrow> clock \<Rightarrow> ElectricVehicle \<Rightarrow> int" where
  "priorityKey fl c v = - priorityOrder (calculatePriority fl c v)"

definition conforming_sort ::
  "rounding \<Rightarrow> clock \<Rightarrow> ElectricVehicle list \<Rightarrow> ElectricVehicle list \<Rightarrow> bool" where
  "conforming_sort fl c xs ys =
     (mset ys = mset xs \<and>
      sorted (map (priorityKey fl c) ys) \<and>
      (\<forall>k. filter (\<lambda>v. calculatePriority fl c v = k) ys =
           filter (\<lambda>v. calculatePriority fl c v = k) xs))"

text \<open>
  The entry of the table for a state key and an action key, and the value and the visit
  count the table holds for a state and an action, 0 where there is no entry. A fresh
  entry is the one \<open>getQValue\<close> creates.
\<close>

definition entry :: "Agent \<Rightarrow> state_key \<Rightarrow> action_key \<Rightarrow> QValue option" where
  "entry this k ak = (case qTable this k of None \<Rightarrow> None | Some actions \<Rightarrow> actions ak)"

definition stored_value :: "Agent \<Rightarrow> State \<Rightarrow> Action \<Rightarrow> real" where
  "stored_value this s a =
     (case entry this (stateToKey s) (actionToKey a) of None \<Rightarrow> 0 | Some q \<Rightarrow> qv_value q)"

definition stored_visits :: "Agent \<Rightarrow> State \<Rightarrow> Action \<Rightarrow> int" where
  "stored_visits this s a =
     (case entry this (stateToKey s) (actionToKey a) of None \<Rightarrow> 0 | Some q \<Rightarrow> qv_visits q)"

definition fresh_entry :: "state_key \<Rightarrow> action_key \<Rightarrow> QValue" where
  "fresh_entry k ak = \<lparr>qv_state = k, qv_action = ak, qv_value = 0, qv_visits = 0\<rparr>"


section \<open>A worked fleet\<close>

text \<open>
  The clock reads 10:00 on the first day of the epoch, in UTC. The price table is the
  tiered one of the mock data: off-peak from 22 to 6, peak from 14 to 20, shoulder
  otherwise. Six vehicles and three stations: \<open>ev1\<close> is nearly empty with a trip in an
  hour, \<open>ev2\<close> is half full with no trip, \<open>ev3\<close> is charged, \<open>ev4\<close> is in
  maintenance, \<open>ev5\<close> finds both available stations taken, and \<open>ev6\<close> has no
  capacity and so no energy need; \<open>cs3\<close> is occupied. The scooter has a battery so small
  that its energy need rounds to 0.0 kWh.

  For runs in the arithmetic of the doubles the numbers of the input are doubles:
  \<open>double_pricing\<close> is the tiered table with its prices rounded, \<open>one_cheap_hour\<close> a
  table with a single off-peak hour at 22, and the van has a battery of 2.8 kWh, as a
  double, at 2.5 percent, with a trip in an hour. The runtime of the worked fleet holds
  the fleet at address 0, and the ticking clock advances by a millisecond at every read.
\<close>

definition demo_clock :: clock where
  "demo_clock = \<lparr>now_ms = 36000000, tz_offset_ms = 0\<rparr>"

definition demo_pricing :: "EnergyPricing list" where
  "demo_pricing =
     map (\<lambda>h. if 22 \<le> h \<or> h < 6
              then \<lparr>pricing_hour = real h, price = 0.08, period = Off_peak, demand = 30\<rparr>
              else if 14 \<le> h \<and> h < 20
              then \<lparr>pricing_hour = real h, price = 0.20, period = Peak, demand = 85\<rparr>
              else \<lparr>pricing_hour = real h, price = 0.12, period = Shoulder, demand = 55\<rparr>)
       [0..<24]"

definition ev1 :: ElectricVehicle where
  "ev1 = \<lparr>vehicle_id = ''EV-001'', battery_capacity = 60, current_charge = 6, soc = 10,
          location = \<lparr>loc_x = 0, loc_y = 0\<rparr>,
          trip_schedule = [\<lparr>departure = 39600000, arrival = 46800000, destination = None\<rparr>],
          status = Idle, model = ''Tesla Model 3'', charging_speed = 24\<rparr>"

definition ev2 :: ElectricVehicle where
  "ev2 = \<lparr>vehicle_id = ''EV-002'', battery_capacity = 55, current_charge = 27.5, soc = 50,
          location = \<lparr>loc_x = 3, loc_y = 4\<rparr>, trip_schedule = [],
          status = Idle, model = ''Nissan Leaf'', charging_speed = 11\<rparr>"

definition ev3 :: ElectricVehicle where
  "ev3 = \<lparr>vehicle_id = ''EV-003'', battery_capacity = 75, current_charge = 63.75, soc = 85,
          location = \<lparr>loc_x = 1, loc_y = 1\<rparr>, trip_schedule = [],
          status = Idle, model = ''BMW i3'', charging_speed = 22\<rparr>"

definition ev4 :: ElectricVehicle where
  "ev4 = \<lparr>vehicle_id = ''EV-004'', battery_capacity = 90, current_charge = 18, soc = 20,
          location = \<lparr>loc_x = 2, loc_y = 2\<rparr>, trip_schedule = [],
          status = Maintenance, model = ''Audi e-tron'', charging_speed = 50\<rparr>"

definition ev5 :: ElectricVehicle where
  "ev5 = \<lparr>vehicle_id = ''EV-005'', battery_capacity = 50, current_charge = 35, soc = 70,
          location = \<lparr>loc_x = 3, loc_y = 4\<rparr>, trip_schedule = [],
          status = Charging, model = ''Chevy Bolt'', charging_speed = 7\<rparr>"

definition ev6 :: ElectricVehicle where
  "ev6 = \<lparr>vehicle_id = ''EV-006'', battery_capacity = 0, current_charge = 0, soc = 50,
          location = \<lparr>loc_x = 0, loc_y = 0\<rparr>, trip_schedule = [],
          status = Idle, model = ''Unknown'', charging_speed = 7\<rparr>"

definition demo_fleet :: "ElectricVehicle list" where
  "demo_fleet = [ev3, ev2, ev4, ev1, ev5, ev6]"

definition cs1 :: ChargingStation where
  "cs1 = \<lparr>station_id = ''CS-001'', station_location = \<lparr>loc_x = 0, loc_y = 0\<rparr>, max_power = 50,
          available = True, current_usage = 0, occupied_by = None, type = Fast\<rparr>"

definition cs2 :: ChargingStation where
  "cs2 = \<lparr>station_id = ''CS-002'', station_location = \<lparr>loc_x = 3, loc_y = 4\<rparr>, max_power = 11,
          available = True, current_usage = 0, occupied_by = None, type = Standard\<rparr>"

definition cs3 :: ChargingStation where
  "cs3 = \<lparr>station_id = ''CS-003'', station_location = \<lparr>loc_x = 3, loc_y = 4\<rparr>, max_power = 150,
          available = False, current_usage = 120, occupied_by = Some ''EV-004'',
          type = Ultra_fast\<rparr>"

definition demo_stations :: "ChargingStation list" where
  "demo_stations = [cs3, cs1, cs2]"

definition plan1 :: ChargingPlan where
  "plan1 = \<lparr>plan_vehicle_id = ''EV-001'', plan_station_id = ''CS-001'',
            start_time = Valid 36000000, end_time = Valid 43200000,
            energy_to_charge = 48, estimated_cost = 5.76, plan_priority = High,
            distance_to_station = 0\<rparr>"

definition plan2 :: ChargingPlan where
  "plan2 = \<lparr>plan_vehicle_id = ''EV-002'', plan_station_id = ''CS-002'',
            start_time = Valid 79200000, end_time = Valid 86400000,
            energy_to_charge = 22, estimated_cost = 1.76, plan_priority = Low,
            distance_to_station = 0\<rparr>"

definition scooter :: ElectricVehicle where
  "scooter = \<lparr>vehicle_id = ''EV-007'', battery_capacity = 0.4, current_charge = 0.316, soc = 79,
          location = \<lparr>loc_x = 3, loc_y = 4\<rparr>,
          trip_schedule = [\<lparr>departure = 39600000, arrival = 46800000, destination = None\<rparr>],
          status = Idle, model = ''E-Scooter'', charging_speed = 11\<rparr>"

definition scooter_plan :: ChargingPlan where
  "scooter_plan = \<lparr>plan_vehicle_id = ''EV-007'', plan_station_id = ''CS-002'',
            start_time = Valid 36000000, end_time = Valid 36014400,
            energy_to_charge = 0, estimated_cost = 0.01, plan_priority = Low,
            distance_to_station = 0\<rparr>"

definition double_pricing :: "EnergyPricing list" where
  "double_pricing = map (\<lambda>p. p\<lparr>price := double (price p)\<rparr>) demo_pricing"

definition van :: ElectricVehicle where
  "van = \<lparr>vehicle_id = ''EV-008'', battery_capacity = double 2.8, current_charge = 0.07,
          soc = 2.5, location = \<lparr>loc_x = 3, loc_y = 4\<rparr>,
          trip_schedule = [\<lparr>departure = 39600000, arrival = 46800000, destination = None\<rparr>],
          status = Idle, model = ''E-Van'', charging_speed = 11\<rparr>"

definition van_plan :: ChargingPlan where
  "van_plan = \<lparr>plan_vehicle_id = ''EV-008'', plan_station_id = ''CS-002'',
            start_time = Valid 36000000, end_time = Valid 36801818,
            energy_to_charge = double 2.4, estimated_cost = double 0.29, plan_priority = High,
            distance_to_station = 0\<rparr>"

definition one_cheap_hour :: "EnergyPricing list" where
  "one_cheap_hour =
     map (\<lambda>h. if h = 22
              then \<lparr>pricing_hour = real h, price = double 0.08, period = Off_peak, demand = 30\<rparr>
              else \<lparr>pricing_hour = real h, price = double 0.12, period = Shoulder, demand = 55\<rparr>)
       [0..<24]"

definition demo_runtime :: runtime where
  "demo_runtime = \<lparr>clock_reads = 0, vehicle_arrays = [demo_fleet]\<rparr>"

definition ticking :: timeline where
  "ticking k = \<lparr>now_ms = 36000000 + int k, tz_offset_ms = 0\<rparr>"

definition demo_state :: State where
  "demo_state = \<lparr>state_hour = 10, vehicleSoC = 50, state_energyPrice = 0.12,
                 state_stationAvailability = 0.5\<rparr>"

definition demo_next_state :: State where
  "demo_next_state = \<lparr>state_hour = 11, vehicleSoC = 90, state_energyPrice = 0.12,
                      state_stationAvailability = 0.5\<rparr>"

definition demo_action :: Action where
  "demo_action = \<lparr>shouldCharge = True, targetSoC = 90, urgency = Low_urgency\<rparr>"


section \<open>Lemmas about the model\<close>

declare windowLoop.simps [simp del]

declare binade.simps [simp del]

subsection \<open>The cost loop\<close>

text \<open>
  For a finite number of hours and a table of at least 24 entries the loop returns its
  buckets accumulated from the start hour, in exact arithmetic their sum; with such a
  table it never throws, whatever the number of hours, and for an infinite number of
  hours it does not return.
\<close>

lemma real_less_of_int_iff: "(real i < real_of_int n) = (i < nat n)"
proof -
  have "(real i < of_int n) = (int i < n)"
    by (metis of_int_less_iff of_int_of_nat_eq)
  then show ?thesis by auto
qed

lemma hour_in_table: "24 \<le> length (pricing :: EnergyPricing list) \<Longrightarrow> (h + i) mod 24 < length pricing"
  by (meson less_le_trans mod_less_divisor zero_less_numeral)

lemma chargingCostLoop_finite:
  assumes "24 \<le> length pricing"
  shows "chargingCostLoop fl i (Finite (of_int n)) acc E h (Finite d) pricing =
           Some (Inr (foldl (\<lambda>totalCost i.
              fl (totalCost + fl (min (fl (E / d)) E * price (pricing ! ((h + i) mod 24)))))
              acc [i..<nat n]))"
proof (induction "nat n - i" arbitrary: i acc)
  case 0
  then have "\<not> i < nat n" by simp
  then show ?case
    by (subst chargingCostLoop.simps) (simp add: real_less_of_int_iff)
next
  case (Suc m)
  then have lt: "i < nat n" and m: "m = nat n - (i + 1)" by simp_all
  have split: "[i..<nat n] = i # [i + 1..<nat n]"
    using lt by (simp add: upt_conv_Cons)
  show ?case
    apply (subst chargingCostLoop.simps)
    apply (simp only: js_less.simps real_less_of_int_iff lt if_True Let_def hour_in_table [OF assms] Suc.hyps(1) [OF m])
    apply (simp add: split)
    done
qed

lemma calculateChargingCost_finite:
  assumes "24 \<le> length pricing"
  shows "calculateChargingCost fl E h (Finite d) pricing =
           Some (Inr (machine_cost fl E h d pricing))"
  by (simp add: calculateChargingCost_def machine_cost_def chargingCostLoop_finite [OF assms])

lemma foldl_plus_sum_list:
  "foldl (\<lambda>totalCost i. totalCost + f i) acc xs = acc + sum_list (map f xs)"
  for acc :: real
  by (induction xs arbitrary: acc) (simp_all add: add.assoc)

lemma machine_cost_exact:
  "machine_cost exact E h d pricing = hourly_cost_model E h d pricing"
  by (simp add: machine_cost_def hourly_cost_model_def exact_def foldl_plus_sum_list
      interv_sum_list_conv_sum_set_nat)

lemma chargingCostLoop_no_throw:
  assumes "chargingCostLoop fl i n acc E h d pricing = Some r" and "24 \<le> length pricing"
  shows "\<exists>c. r = Inr c"
proof -
  have "24 \<le> length pricing \<longrightarrow> (\<exists>c. r = Inr c)"
  proof (rule chargingCostLoop.raw_induct
      [where P = "\<lambda>fl i n acc E h d pricing r. 24 \<le> length pricing \<longrightarrow> (\<exists>c. r = Inr c)",
       OF _ assms(1)])
    fix loop fl i n acc E h d and pricing :: "EnergyPricing list" and r
    assume IH: "\<And>fl i n acc E h d pricing r. loop fl i n acc E h d pricing = Some r \<Longrightarrow>
                  24 \<le> length pricing \<longrightarrow> (\<exists>c. r = Inr c)"
      and step: "(if js_less (real i) n
      then let hour = (h + i) mod 24
           in if hour < length pricing
              then let hourlyPrice = price (pricing ! hour);
                       energyThisHour = min (js_over fl E d) E
                   in loop fl (i + 1) n (fl (acc + fl (energyThisHour * hourlyPrice))) E h d pricing
              else Some (Inl TypeError)
      else Some (Inr acc)) = Some r"
    show "24 \<le> length pricing \<longrightarrow> (\<exists>c. r = Inr c)"
    proof
      assume len: "24 \<le> length pricing"
      show "\<exists>c. r = Inr c"
        using step IH len hour_in_table [OF len, of h i]
        by (auto simp: Let_def split: if_splits)
    qed
  qed
  with assms(2) show ?thesis by simp
qed

lemma chargingCostLoop_infinite:
  assumes "24 \<le> length pricing"
  shows "chargingCostLoop fl i PosInfinity acc E h d pricing = None"
proof (cases "chargingCostLoop fl i PosInfinity acc E h d pricing")
  case None
  then show ?thesis .
next
  case (Some r)
  have "PosInfinity = PosInfinity \<longrightarrow> 24 \<le> length pricing \<longrightarrow> False"
  proof (rule chargingCostLoop.raw_induct
      [where P = "\<lambda>fl i n acc E h d pricing r. n = PosInfinity \<longrightarrow> 24 \<le> length pricing \<longrightarrow> False",
       OF _ Some])
    fix loop fl i n acc E h d and pricing :: "EnergyPricing list" and r
    assume IH: "\<And>fl i n acc E h d pricing r. loop fl i n acc E h d pricing = Some r \<Longrightarrow>
                  n = PosInfinity \<longrightarrow> 24 \<le> length pricing \<longrightarrow> False"
      and step: "(if js_less (real i) n
      then let hour = (h + i) mod 24
           in if hour < length pricing
              then let hourlyPrice = price (pricing ! hour);
                       energyThisHour = min (js_over fl E d) E
                   in loop fl (i + 1) n (fl (acc + fl (energyThisHour * hourlyPrice))) E h d pricing
              else Some (Inl TypeError)
      else Some (Inr acc)) = Some r"
    show "n = PosInfinity \<longrightarrow> 24 \<le> length pricing \<longrightarrow> False"
    proof (intro impI)
      assume inf: "n = PosInfinity" and len: "24 \<le> length pricing"
      show False
        using step IH inf len hour_in_table [OF len, of h i]
        by (auto simp: Let_def split: if_splits)
    qed
  qed
  with assms show ?thesis by simp
qed

subsection \<open>The window scan\<close>


subsection \<open>Sorting and the nearest station\<close>

text \<open>
  The sort rearranges. The station found is available, and unassigned; none is found
  exactly when every available station is assigned.
\<close>

lemma set_insert_by [simp]: "set (insert_by cmp a bs) = insert a (set bs)"
  by (induction bs) auto

lemma set_foldr_insert_by [simp]: "set (foldr (insert_by cmp) xs []) = set xs"
  by (induction xs) simp_all

lemma set_js_sort [simp]: "set (js_sort cmp xs) = set xs"
  by (simp add: js_sort_def)

lemma distinct_map_insert_by [simp]:
  "distinct (map f (insert_by cmp a bs)) = (f a \<notin> f ` set bs \<and> distinct (map f bs))"
  by (induction bs) auto

lemma distinct_map_js_sort [simp]: "distinct (map f (js_sort cmp xs)) = distinct (map f xs)"
  by (induction xs) (simp_all add: js_sort_def)

lemma set_sortedVehicles: "set (sortedVehicles fl c fleet) = {v \<in> set fleet. needsCharge v}"
  by (simp add: sortedVehicles_def)

lemma distinct_sortedVehicles:
  "distinct (map vehicle_id fleet) \<Longrightarrow> distinct (map vehicle_id (sortedVehicles fl c fleet))"
  by (simp add: sortedVehicles_def distinct_map_filter)

lemma nearestLoop_Some:
  "nearestLoop fl ss A v nearest = Some (s, md) \<Longrightarrow>
   (\<forall>s' d'. nearest = Some (s', d') \<longrightarrow> station_id s' \<notin> dom A \<and> s' \<in> S) \<Longrightarrow> set ss \<subseteq> S \<Longrightarrow>
   station_id s \<notin> dom A \<and> s \<in> S"
proof (induction ss arbitrary: nearest)
  case Nil
  then show ?case by simp
next
  case (Cons a ss)
  show ?case
  proof (cases "station_id a \<in> dom A")
    case True
    with Cons show ?thesis by simp
  next
    case False
    let ?d = "calculateDistance fl (location v) (station_location a)"
    show ?thesis
    proof (cases "case nearest of None \<Rightarrow> True | Some (_, minDistance) \<Rightarrow> ?d < minDistance")
      case True
      with False Cons.prems have "nearestLoop fl ss A v (Some (a, ?d)) = Some (s, md)"
        by (simp add: Let_def)
      then show ?thesis
        using Cons.IH [of "Some (a, ?d)"] False Cons.prems(3) by auto
    next
      case F2: False
      with False Cons.prems have "nearestLoop fl ss A v nearest = Some (s, md)"
        by (simp add: Let_def)
      then show ?thesis
        using Cons.IH [of nearest] Cons.prems by auto
    qed
  qed
qed



lemma buildPlan_fields:
  assumes "buildPlan fl c pricing v E s md = Some (Inr p)"
  shows "plan_vehicle_id p = vehicle_id v \<and> plan_station_id p = station_id s \<and>
         energy_to_charge p = fl (js_round (fl (E * 10)) / 10) \<and>
         plan_priority p = calculatePriority fl c v \<and>
         distance_to_station p = fl (js_round (fl (md * 10)) / 10)"
  using assms
  by (auto simp: buildPlan_def Let_def split: option.splits sum.splits)

subsection \<open>Calls that return and calls that throw\<close>



lemma calculateChargingCost_no_throw:
  "calculateChargingCost fl E h d pricing = Some r \<Longrightarrow> 24 \<le> length pricing \<Longrightarrow> \<exists>c. r = Inr c"
  unfolding calculateChargingCost_def by (rule chargingCostLoop_no_throw)

lemma windowLoop_no_throw:
  "24 \<le> length pricing \<Longrightarrow> windowLoop fl hour cur minCost opt d pricing \<noteq> Some (Inl e)"
proof (induction fl hour cur minCost opt d pricing rule: windowLoop.induct)
  case (1 fl hour currentHour minCost optimalHour durationHours pricing)
  show ?case
  proof (cases "hour < currentHour + 24")
    case False
    then show ?thesis by (subst windowLoop.simps) simp
  next
    case True
    show ?thesis
    proof (cases "calculateChargingCost fl 1 (hour mod 24) durationHours pricing")
      case None
      with True show ?thesis by (subst windowLoop.simps) simp
    next
      case (Some r)
      then obtain cost where r: "r = Inr cost"
        using calculateChargingCost_no_throw "1.prems" by blast
      show ?thesis
        using True Some r "1.IH"(1) [OF True refl Some [unfolded r] refl] 
              "1.IH"(2) [OF True refl Some [unfolded r] refl] "1.prems"
        by (subst windowLoop.simps) (simp add: Let_def)
    qed
  qed
qed

lemma findOptimalChargingWindow_no_throw:
  "24 \<le> length pricing \<Longrightarrow> findOptimalChargingWindow fl c v d pricing \<noteq> Some (Inl e)"
  by (simp add: findOptimalChargingWindow_def Let_def windowLoop_no_throw)



subsection \<open>The scheduling loop\<close>

text \<open>
  The two ways through the body of the loop, the loop over an appended list, and what
  the loop adds to its state: plans on distinct, unassigned stations, one per vehicle
  at most, each for a vehicle with a positive energy need.
\<close>

lemma scheduleLoop_skip:
  "energyNeeded fl v \<le> 0 \<or> nearestLoop fl avail A v None = None \<Longrightarrow>
   scheduleLoop fl c avail pricing (v # vs) A plans = scheduleLoop fl c avail pricing vs A plans"
  by auto

lemma scheduleLoop_assign:
  "0 < energyNeeded fl v \<Longrightarrow> nearestLoop fl avail A v None = Some (s, md) \<Longrightarrow>
   scheduleLoop fl c avail pricing (v # vs) A plans =
     (case buildPlan fl c pricing v (energyNeeded fl v) s md of
        None \<Rightarrow> None
      | Some (Inl e) \<Rightarrow> Some (Inl e)
      | Some (Inr plan) \<Rightarrow>
          scheduleLoop fl c avail pricing vs (A(station_id s \<mapsto> vehicle_id v)) (plans @ [plan]))"
  by simp

declare scheduleLoop.simps(2) [simp del]

lemma scheduleLoop_cases:
  obtains (skip) "energyNeeded fl v \<le> 0 \<or> nearestLoop fl avail A v None = None"
  | (assign) s md where "0 < energyNeeded fl v" "nearestLoop fl avail A v None = Some (s, md)"
proof (cases "energyNeeded fl v \<le> 0 \<or> nearestLoop fl avail A v None = None")
  case True
  then show ?thesis by (rule skip)
next
  case False
  then obtain b where b: "nearestLoop fl avail A v None = Some b" by auto
  obtain s md where "b = (s, md)" by (cases b)
  with b False show ?thesis using assign [of s md] by simp
qed



lemma scheduleLoop_append:
  "scheduleLoop fl c avail pricing (xs @ ys) A plans =
     (case scheduleLoop fl c avail pricing xs A plans of
        None \<Rightarrow> None
      | Some (Inl e) \<Rightarrow> Some (Inl e)
      | Some (Inr (A1, plans1)) \<Rightarrow> scheduleLoop fl c avail pricing ys A1 plans1)"
proof (induction xs arbitrary: A plans)
  case Nil
  show ?case by simp
next
  case (Cons v xs)
  show ?case
  proof (cases rule: scheduleLoop_cases [of fl v avail A])
    case skip
    then show ?thesis by (simp add: scheduleLoop_skip [OF skip] Cons)
  next
    case (assign s md)
    show ?thesis
    proof (cases "buildPlan fl c pricing v (energyNeeded fl v) s md")
      case None
      then show ?thesis by (simp add: scheduleLoop_assign [OF assign])
    next
      case (Some r)
      then show ?thesis
        by (cases r) (simp_all add: scheduleLoop_assign [OF assign] Cons del: fun_upd_apply)
    qed
  qed
qed

lemma scheduleLoop_result:
  assumes "scheduleLoop fl c avail pricing vs A plans = Some (Inr (A', plans'))"
  shows "\<exists>new. plans' = plans @ new \<and>
           dom A' = dom A \<union> set (map plan_station_id new) \<and>
           distinct (map plan_station_id new) \<and>
           set (map plan_station_id new) \<inter> dom A = {} \<and>
           set (map plan_station_id new) \<subseteq> station_id ` set avail \<and>
           (\<forall>p\<in>set new. \<exists>v\<in>set vs. plan_vehicle_id p = vehicle_id v \<and> 0 < energyNeeded fl v \<and>
               energy_to_charge p = fl (js_round (fl (energyNeeded fl v * 10)) / 10)) \<and>
           (distinct (map vehicle_id vs) \<longrightarrow> distinct (map plan_vehicle_id new))"
  using assms
proof (induction vs arbitrary: A plans)
  case Nil
  then show ?case by simp
next
  case (Cons v vs)
  show ?case
  proof (cases rule: scheduleLoop_cases [of fl v avail A])
    case skip
    with Cons.prems have "scheduleLoop fl c avail pricing vs A plans = Some (Inr (A', plans'))"
      by (simp add: scheduleLoop_skip [OF skip])
    from Cons.IH [OF this] show ?thesis by auto
  next
    case (assign s md)
    then have pos: "0 < energyNeeded fl v" and near: "nearestLoop fl avail A v None = Some (s, md)"
      by simp_all
    have s: "station_id s \<notin> dom A" "s \<in> set avail"
      using nearestLoop_Some [OF near, of "set avail"] by simp_all
    from Cons.prems pos near obtain p where
      p: "buildPlan fl c pricing v (energyNeeded fl v) s md = Some (Inr p)" and
      rest: "scheduleLoop fl c avail pricing vs (A(station_id s \<mapsto> vehicle_id v)) (plans @ [p])
               = Some (Inr (A', plans'))"
      by (auto simp: scheduleLoop_assign [OF assign] split: option.splits sum.splits)
    note f = buildPlan_fields [OF p]
    from Cons.IH [OF rest] obtain new where new:
      "plans' = (plans @ [p]) @ new"
      "dom A' = dom (A(station_id s \<mapsto> vehicle_id v)) \<union> set (map plan_station_id new)"
      "distinct (map plan_station_id new)"
      "set (map plan_station_id new) \<inter> dom (A(station_id s \<mapsto> vehicle_id v)) = {}"
      "set (map plan_station_id new) \<subseteq> station_id ` set avail"
      "\<forall>p\<in>set new. \<exists>v\<in>set vs. plan_vehicle_id p = vehicle_id v \<and> 0 < energyNeeded fl v \<and>
               energy_to_charge p = fl (js_round (fl (energyNeeded fl v * 10)) / 10)"
      "distinct (map vehicle_id vs) \<longrightarrow> distinct (map plan_vehicle_id new)"
      by blast
    have 1: "plans' = plans @ (p # new)" using new(1) by simp
    have 2: "dom A' = dom A \<union> set (map plan_station_id (p # new))"
      using new(2) f by auto
    have 3: "distinct (map plan_station_id (p # new))"
      using new(3,4) f by auto
    have 4: "set (map plan_station_id (p # new)) \<inter> dom A = {}"
      using new(4) f s(1) by auto
    have 5: "set (map plan_station_id (p # new)) \<subseteq> station_id ` set avail"
      using new(5) f s(2) by auto
    have 6: "\<forall>q\<in>set (p # new). \<exists>w\<in>set (v # vs). plan_vehicle_id q = vehicle_id w \<and>
               0 < energyNeeded fl w \<and> energy_to_charge q = fl (js_round (fl (energyNeeded fl w * 10)) / 10)"
      using new(6) f pos by auto
    have 7: "distinct (map vehicle_id (v # vs)) \<longrightarrow> distinct (map plan_vehicle_id (p # new))"
    proof
      assume d: "distinct (map vehicle_id (v # vs))"
      then have "vehicle_id v \<notin> vehicle_id ` set vs" by simp
      with new(6) have "plan_vehicle_id p \<notin> set (map plan_vehicle_id new)"
        using f by force
      with d new(7) show "distinct (map plan_vehicle_id (p # new))" by simp
    qed
    from 1 2 3 4 5 6 7 show ?thesis by blast
  qed
qed

subsection \<open>The worked fleet, run\<close>

text \<open>
  The optimizer evaluated on the worked fleet, step by step.
\<close>

lemma length_demo_pricing: "length demo_pricing = 24"
  by (simp add: demo_pricing_def)

lemma price_demo_pricing:
  "h < 24 \<Longrightarrow> price (demo_pricing ! h) =
     (if 22 \<le> h \<or> h < 6 then 0.08 else if 14 \<le> h \<and> h < 20 then 0.20 else 0.12)"
  by (simp add: demo_pricing_def)

lemma getHours_demo: "getHours demo_clock = 10"
  by (simp add: getHours_def demo_clock_def)

lemma now_demo: "now_ms demo_clock = 36000000" "tz_offset_ms demo_clock = 0"
  by (simp_all add: demo_clock_def)

lemma cost2: "hourly_cost_model E h 2 demo_pricing =
   min (E / 2) E * price (demo_pricing ! (h mod 24)) + min (E / 2) E * price (demo_pricing ! (Suc h mod 24))"
  by (simp add: hourly_cost_model_def numeral_2_eq_2)

lemma window_ev2: "findOptimalChargingWindow exact demo_clock ev2 (Finite 2) demo_pricing = Some (Inr 22)"
  by (simp add: findOptimalChargingWindow_def ev2_def getHours_demo windowLoop.simps
      calculateChargingCost_finite machine_cost_exact exact_def length_demo_pricing cost2 price_demo_pricing)

lemma priority_demo:
  "calculatePriority exact demo_clock ev1 = High" "calculatePriority exact demo_clock ev2 = Low"
  "calculatePriority exact demo_clock ev5 = Low" "calculatePriority exact demo_clock ev6 = Low"
  by (simp_all add: calculatePriority_def exact_def ev1_def ev2_def ev5_def ev6_def)

lemma sorted_demo: "sortedVehicles exact demo_clock demo_fleet = [ev1, ev2, ev5, ev6]"
proof -
  have "filter needsCharge demo_fleet = [ev2, ev1, ev5, ev6]"
    by (simp add: demo_fleet_def needsCharge_def ev1_def ev2_def ev3_def ev4_def ev5_def ev6_def)
  then show ?thesis
    by (simp add: sortedVehicles_def js_sort_def comparePriority_def priority_demo)
qed

lemma energy_demo:
  "energyNeeded exact ev1 = 48" "energyNeeded exact ev2 = 22" "energyNeeded exact ev5 = 10" "energyNeeded exact ev6 = 0"
  by (simp_all add: energyNeeded_def exact_def ev1_def ev2_def ev5_def ev6_def)

lemma window_ev1: "findOptimalChargingWindow exact demo_clock ev1 (Finite 2) demo_pricing = Some (Inr 10)"
  by (simp add: findOptimalChargingWindow_def ev1_def getHours_demo hoursUntilTrip_def exact_def now_demo)

lemma build_ev1: "buildPlan exact demo_clock demo_pricing ev1 48 cs1 0 = Some (Inr plan1)"
proof -
  have q: "js_quotient exact 48 (min (max_power cs1) (charging_speed ev1)) = Finite 2"
    by (simp add: js_quotient_def exact_def cs1_def ev1_def)
  show ?thesis
    unfolding buildPlan_def Let_def q window_ev1 priority_demo
    by (simp add: calculateChargingCost_finite machine_cost_exact exact_def length_demo_pricing cost2 price_demo_pricing
        plan1_def js_round_def time_clip_def getHours_demo now_demo cs1_def ev1_def)
qed

lemma build_ev2: "buildPlan exact demo_clock demo_pricing ev2 22 cs2 0 = Some (Inr plan2)"
proof -
  have q: "js_quotient exact 22 (min (max_power cs2) (charging_speed ev2)) = Finite 2"
    by (simp add: js_quotient_def exact_def cs2_def ev2_def)
  show ?thesis
    unfolding buildPlan_def Let_def q window_ev2 priority_demo
    by (simp add: calculateChargingCost_finite machine_cost_exact exact_def length_demo_pricing cost2 price_demo_pricing
        plan2_def js_round_def time_clip_def getHours_demo now_demo cs2_def ev2_def)
qed

lemma nearest_ev1: "nearestLoop exact [cs1, cs2] Map.empty ev1 None = Some (cs1, 0)"
  by (simp add: calculateDistance_def exact_def cs1_def cs2_def ev1_def)

lemma nearest_ev2: "nearestLoop exact [cs1, cs2] [''CS-001'' \<mapsto> ''EV-001''] ev2 None = Some (cs2, 0)"
  by (simp add: calculateDistance_def exact_def cs1_def cs2_def ev2_def)

lemma demo_prefix:
  "scheduleLoop exact demo_clock [cs1, cs2] demo_pricing [ev1, ev2] Map.empty [] =
     Some (Inr ([''CS-001'' \<mapsto> ''EV-001'', ''CS-002'' \<mapsto> ''EV-002''], [plan1, plan2]))"
proof -
  have 1: "station_id cs1 = ''CS-001''" "station_id cs2 = ''CS-002''"
    "vehicle_id ev1 = ''EV-001''" "vehicle_id ev2 = ''EV-002''"
    by (simp_all add: cs1_def cs2_def ev1_def ev2_def)
  show ?thesis
    by (simp add: scheduleLoop.simps(2) energy_demo nearest_ev1 nearest_ev2 build_ev1 build_ev2 1
        del: fun_upd_apply nearestLoop.simps)
qed

lemma demo_run:
  "optimizeChargingSchedule exact demo_clock demo_fleet demo_stations demo_pricing =
     Some (Inr [plan1, plan2])"
proof -
  have av: "filter available demo_stations = [cs1, cs2]"
    by (simp add: demo_stations_def cs1_def cs2_def cs3_def)
  have ex: "nearestLoop exact [cs1, cs2] [''CS-001'' \<mapsto> ''EV-001'', ''CS-002'' \<mapsto> ''EV-002''] ev5 None = None"
    by (simp add: cs1_def cs2_def)
  have "scheduleLoop exact demo_clock [cs1, cs2] demo_pricing ([ev1, ev2] @ [ev5, ev6]) Map.empty [] =
     Some (Inr ([''CS-001'' \<mapsto> ''EV-001'', ''CS-002'' \<mapsto> ''EV-002''], [plan1, plan2]))"
    unfolding scheduleLoop_append demo_prefix
    by (simp add: scheduleLoop.simps(2) energy_demo ex del: fun_upd_apply nearestLoop.simps)
  then show ?thesis
    by (simp add: optimizeChargingSchedule_def av sorted_demo)
qed

subsection \<open>The sort is determined\<close>

text \<open>
  The insertion sort is the stable sort by the key of the comparator, and a stable sort
  has one result.
\<close>

lemma insert_by_insort_key:
  "insert_by (comparePriority fl c) a bs = insort_key (priorityKey fl c) a bs"
  by (induction bs) (simp_all add: comparePriority_def priorityKey_def)

lemma js_sort_sort_key: "js_sort (comparePriority fl c) xs = sort_key (priorityKey fl c) xs"
  by (induction xs) (simp_all add: js_sort_def insert_by_insort_key)

lemma priorityOrder_inj: "(priorityOrder p = priorityOrder q) = (p = q)"
  by (cases p; cases q) simp_all

lemma conforming_sort_unique:
  assumes "conforming_sort fl c xs ys"
  shows "ys = js_sort (comparePriority fl c) xs"
proof -
  have "sort_key (priorityKey fl c) xs = ys"
  proof (rule properties_for_sort_key)
    show "mset ys = mset xs" using assms by (simp add: conforming_sort_def)
    show "sorted (map (priorityKey fl c) ys)" using assms by (simp add: conforming_sort_def)
    fix k assume "k \<in> set ys"
    have "(\<lambda>x. priorityKey fl c k = priorityKey fl c x) = (\<lambda>v. calculatePriority fl c v = calculatePriority fl c k)"
      by (auto simp: priorityKey_def priorityOrder_inj)
    then show "filter (\<lambda>x. priorityKey fl c k = priorityKey fl c x) ys =
               filter (\<lambda>x. priorityKey fl c k = priorityKey fl c x) xs"
      using assms by (simp add: conforming_sort_def)
  qed
  then show ?thesis by (simp add: js_sort_sort_key)
qed

lemma js_sort_conforming: "conforming_sort fl c xs (js_sort (comparePriority fl c) xs)"
proof -
  have "filter (\<lambda>v. calculatePriority fl c v = k) (sort_key (priorityKey fl c) xs) =
        filter (\<lambda>v. calculatePriority fl c v = k) xs" for k
  proof -
    have "(\<lambda>v. calculatePriority fl c v = k) = (\<lambda>v. priorityKey fl c v = - priorityOrder k)"
      by (auto simp: priorityKey_def priorityOrder_inj)
    then show ?thesis by (simp add: sort_key_stable)
  qed
  then show ?thesis
    by (simp add: conforming_sort_def js_sort_sort_key)
qed

lemma demo_conforming:
  "conforming_sort exact demo_clock (filter needsCharge demo_fleet) [ev1, ev2, ev5, ev6]"
proof -
  have f: "filter needsCharge demo_fleet = [ev2, ev1, ev5, ev6]"
    by (simp add: demo_fleet_def needsCharge_def ev1_def ev2_def ev3_def ev4_def ev5_def ev6_def)
  have "filter (\<lambda>v. calculatePriority exact demo_clock v = k) [ev1, ev2, ev5, ev6] =
        filter (\<lambda>v. calculatePriority exact demo_clock v = k) [ev2, ev1, ev5, ev6]" for k
    by (cases k) (simp_all add: priority_demo)
  then show ?thesis
    unfolding conforming_sort_def f
    by (simp add: priorityKey_def priority_demo add_mset_commute)
qed

subsection \<open>The returned plans\<close>

text \<open>
  Every returned plan is the plan of a vehicle that needs charge and has a positive
  computed energy need, which the plan carries rounded to one decimal place.
\<close>

lemma optimize_Inr:
  "optimizeChargingSchedule fl c fleet stations pricing = Some (Inr plans) \<Longrightarrow>
   \<exists>A. scheduleLoop fl c (filter available stations) pricing (sortedVehicles fl c fleet) Map.empty []
         = Some (Inr (A, plans))"
  by (auto simp: optimizeChargingSchedule_def Let_def split: option.splits sum.splits)

lemma optimize_plan_vehicle:
  assumes "optimizeChargingSchedule fl c fleet stations pricing = Some (Inr plans)"
  shows "\<forall>p\<in>set plans. \<exists>v\<in>set fleet. needsCharge v \<and> plan_vehicle_id p = vehicle_id v \<and>
           0 < energyNeeded fl v \<and> energy_to_charge p = fl (js_round (fl (energyNeeded fl v * 10)) / 10)"
proof -
  from optimize_Inr [OF assms] obtain A where
    run: "scheduleLoop fl c (filter available stations) pricing (sortedVehicles fl c fleet) Map.empty []
         = Some (Inr (A, plans))" ..
  from scheduleLoop_result [OF run] obtain new where new: "plans = [] @ new"
    "\<forall>p\<in>set new. \<exists>v\<in>set (sortedVehicles fl c fleet). plan_vehicle_id p = vehicle_id v \<and>
        0 < energyNeeded fl v \<and> energy_to_charge p = fl (js_round (fl (energyNeeded fl v * 10)) / 10)"
    by blast
  then show ?thesis
    by (fastforce simp: set_sortedVehicles)
qed

lemma distinct_demo_fleet: "distinct (map vehicle_id demo_fleet)"
  by (simp add: demo_fleet_def ev1_def ev2_def ev3_def ev4_def ev5_def ev6_def)

subsection \<open>The scooter, run\<close>

text \<open>
  The optimizer evaluated on the scooter alone.
\<close>

lemma cost1: "0 < d \<Longrightarrow> d \<le> 1 \<Longrightarrow> hourly_cost_model E h d demo_pricing =
   min (E / d) E * price (demo_pricing ! (h mod 24))"
proof -
  assume "0 < d" "d \<le> 1"
  then have "\<lceil>d\<rceil> = 1" by (simp add: ceiling_eq_iff)
  then show ?thesis by (simp add: hourly_cost_model_def)
qed

lemma scooter_run:
  "optimizeChargingSchedule exact demo_clock [scooter] [cs2] demo_pricing = Some (Inr [scooter_plan])"
proof -
  have e: "energyNeeded exact scooter = 11 / 250"
    by (simp add: energyNeeded_def exact_def scooter_def)
  have n: "nearestLoop exact [cs2] Map.empty scooter None = Some (cs2, 0)"
    by (simp add: calculateDistance_def exact_def cs2_def scooter_def)
  have q: "js_quotient exact (11 / 250) (min (max_power cs2) (charging_speed scooter)) = Finite (1 / 250)"
    by (simp add: js_quotient_def exact_def cs2_def scooter_def)
  have p: "calculatePriority exact demo_clock scooter = Low"
    by (simp add: calculatePriority_def exact_def scooter_def)
  have w: "findOptimalChargingWindow exact demo_clock scooter (Finite (1 / 250)) demo_pricing = Some (Inr 10)"
    by (simp add: findOptimalChargingWindow_def scooter_def getHours_demo hoursUntilTrip_def exact_def now_demo)
  have b: "buildPlan exact demo_clock demo_pricing scooter (11 / 250) cs2 0 = Some (Inr scooter_plan)"
    unfolding buildPlan_def Let_def q w p
    by (simp add: calculateChargingCost_finite machine_cost_exact exact_def length_demo_pricing cost1 price_demo_pricing
        scooter_plan_def js_round_def time_clip_def getHours_demo now_demo cs2_def scooter_def)
  have "scheduleLoop exact demo_clock [cs2] demo_pricing [scooter] Map.empty [] =
      Some (Inr ([''CS-002'' \<mapsto> ''EV-007''], [scooter_plan]))"
    by (simp add: scheduleLoop.simps(2) e n b del: fun_upd_apply nearestLoop.simps)
       (simp add: cs2_def scooter_def)
  moreover have "sortedVehicles exact demo_clock [scooter] = [scooter]"
    by (simp add: sortedVehicles_def js_sort_def needsCharge_def scooter_def)
  moreover have "filter available [cs2] = [cs2]"
    by (simp add: cs2_def)
  ultimately show ?thesis
    by (simp add: optimizeChargingSchedule_def)
qed



subsection \<open>Vehicles without a plan\<close>






lemma buildPlan_zero_rate:
  assumes "24 \<le> length pricing" and "min (max_power s) (charging_speed v) = 0"
  shows "buildPlan fl c pricing v E s md = None"
proof -
  have q: "js_quotient fl E (min (max_power s) (charging_speed v)) = PosInfinity"
    using assms(2) by (simp add: js_quotient_def)
  have cost: "calculateChargingCost fl E' h PosInfinity pricing = None" for E' h
    by (simp add: calculateChargingCost_def chargingCostLoop_infinite [OF assms(1)])
  have scan: "windowLoop fl (getHours c) (getHours c) PosInfinity (getHours c) PosInfinity pricing = None"
    by (subst windowLoop.simps) (simp add: cost)
  show ?thesis
  proof (cases "findOptimalChargingWindow fl c v PosInfinity pricing")
    case None
    then show ?thesis by (simp add: buildPlan_def Let_def q)
  next
    case (Some r)
    then obtain h where "r = Inr h"
      using findOptimalChargingWindow_no_throw [OF assms(1), of fl c v PosInfinity]
      by (cases r) auto
    with Some show ?thesis by (simp add: buildPlan_def Let_def q cost)
  qed
qed

subsection \<open>Runs in the arithmetic of the doubles\<close>

text \<open>
  The roundings are evaluated one by one. The van gets its plan with 2.4 kWh. With one
  cheap hour and three hours to charge, the three windows that hold the cheap hour
  cost the same as exact sums; as sums of doubles the window from 20 costs a last bit
  more than the windows from 21 and 22, and the scan keeps 21.
\<close>

lemma length_double_pricing: "length double_pricing = 24"
  by (simp add: double_pricing_def length_demo_pricing)

lemmas double_eval = double_def ulp_def round_half_even_def binade.simps Let_def

lemma double_prices:
  "double (2 / 25) = 5764607523034235 / 72057594037927936"
  "double (1 / 5) = 3602879701896397 / 18014398509481984"
  "double (3 / 25) = 1080863910568919 / 9007199254740992"
  by (simp_all add: double_eval)

lemma price_double_pricing:
  "h < 24 \<Longrightarrow> price (double_pricing ! h) =
     (if 22 \<le> h \<or> h < 6 then 5764607523034235 / 72057594037927936
      else if 14 \<le> h \<and> h < 20 then 3602879701896397 / 18014398509481984
      else 1080863910568919 / 9007199254740992)"
  using price_demo_pricing [of h]
  by (simp add: double_pricing_def length_demo_pricing double_prices)

lemma double_zero [simp]: "double 0 = 0"
  by (simp add: double_def)

lemma van_capacity: "battery_capacity van = 3152519739159347 / 1125899906842624"
  by (simp add: van_def double_eval)

lemma van_need: "energyNeeded double van = 5516909543528857 / 2251799813685248"
proof -
  have 1: "double (90 - soc van) = 175 / 2"
    by (simp add: van_def double_eval)
  have 2: "double (battery_capacity van * (175 / 2)) = 8620171161763839 / 35184372088832"
    by (simp add: van_capacity double_eval)
  have 3: "double (8620171161763839 / 35184372088832 / 100) =
      5516909543528857 / 2251799813685248"
    by (simp add: double_eval)
  show ?thesis
    unfolding energyNeeded_def Let_def 1 2 3 ..
qed

lemma van_duration:
  "js_quotient double (5516909543528857 / 2251799813685248)
     (min (max_power cs2) (charging_speed van)) =
   Finite (8024595699678337 / 36028797018963968)"
  by (simp add: js_quotient_def cs2_def van_def double_eval)

lemma van_priority: "calculatePriority double demo_clock van = High"
  by (simp add: calculatePriority_def van_def)

lemma van_window:
  "findOptimalChargingWindow double demo_clock van
     (Finite (8024595699678337 / 36028797018963968)) double_pricing = Some (Inr 10)"
proof -
  have 1: "hoursUntilTrip double demo_clock (trip_schedule van ! 0) = 1"
    by (simp add: hoursUntilTrip_def van_def now_demo double_eval)
  have 2: "double (8024595699678337 / 36028797018963968 + 2) =
      625642107325049 / 281474976710656"
    by (simp add: double_eval)
  have 3: "0 < length (trip_schedule van)" by (simp add: van_def)
  show ?thesis
    unfolding findOptimalChargingWindow_def Let_def 1 js_plus.simps 2 getHours_demo
    using 3 by simp
qed

lemma van_cost:
  "calculateChargingCost double (5516909543528857 / 2251799813685248) 10
     (Finite (8024595699678337 / 36028797018963968)) double_pricing =
   Some (Inr (5296233161787703 / 18014398509481984))"
proof -
  have c: "nat \<lceil>8024595699678337 / 36028797018963968 :: real\<rceil> = 1"
    by (simp add: ceiling_eq_iff)
  have p: "price (double_pricing ! 10) = 1080863910568919 / 9007199254740992"
    by (simp add: price_double_pricing)
  show ?thesis
    by (simp add: calculateChargingCost_finite length_double_pricing machine_cost_def c p
        double_eval)
qed

lemma van_build:
  "buildPlan double demo_clock double_pricing van (5516909543528857 / 2251799813685248) cs2 0 =
     Some (Inr van_plan)"
proof -
  have ids: "vehicle_id van = ''EV-008''" "station_id cs2 = ''CS-002''"
    by (simp_all add: van_def cs2_def)
  show ?thesis
    unfolding buildPlan_def Let_def van_duration van_priority van_window
    by (simp add: van_cost van_plan_def ids now_demo getHours_demo js_round_def time_clip_def
        double_eval)
qed

lemma van_run:
  "optimizeChargingSchedule double demo_clock [van] [cs2] double_pricing = Some (Inr [van_plan])"
proof -
  have n: "nearestLoop double [cs2] Map.empty van None = Some (cs2, 0)"
    by (simp add: calculateDistance_def cs2_def van_def)
  have "scheduleLoop double demo_clock [cs2] double_pricing [van] Map.empty [] =
      Some (Inr ([''CS-002'' \<mapsto> ''EV-008''], [van_plan]))"
    by (simp add: scheduleLoop.simps(2) van_need n van_build del: fun_upd_apply nearestLoop.simps)
       (simp add: cs2_def van_def)
  moreover have "sortedVehicles double demo_clock [van] = [van]"
    by (simp add: sortedVehicles_def js_sort_def needsCharge_def van_def)
  moreover have "filter available [cs2] = [cs2]"
    by (simp add: cs2_def)
  ultimately show ?thesis
    by (simp add: optimizeChargingSchedule_def)
qed

lemma length_one_cheap_hour: "length one_cheap_hour = 24"
  by (simp add: one_cheap_hour_def)

lemma price_one_cheap_hour:
  "h < 24 \<Longrightarrow> price (one_cheap_hour ! h) =
     (if h = 22 then 5764607523034235 / 72057594037927936
      else 1080863910568919 / 9007199254740992)"
  by (simp add: one_cheap_hour_def double_prices)

lemma scan_roundings:
  "double (1 / 3) = 6004799503160661 / 18014398509481984"
  "double (6490371073168533935183170095459 / 162259276829213363391578010288128) = 2882303761517117 / 72057594037927936"
  "double (2882303761517117 / 72057594037927936) = 2882303761517117 / 72057594037927936"
  "double (2882303761517117 / 36028797018963968) = 2882303761517117 / 36028797018963968"
  "double (8646911284551351 / 72057594037927936) = 8646911284551351 / 72057594037927936"
  "double (34615312390232182989243408229335 / 1298074214633706907132624082305024) = 3843071682022823 / 144115188075855872"
  "double (15372286728091291 / 144115188075855872) = 3843071682022823 / 36028797018963968"
  "double (9607679205057057 / 144115188075855872) = 300239975158033 / 4503599627370496"
  "double (7686143364045645 / 72057594037927936) = 7686143364045645 / 72057594037927936"
  "double (3843071682022823 / 144115188075855872) = 3843071682022823 / 144115188075855872"
  by (simp_all add: double_eval)

lemma upt3: "[0..<3] = [0, 1, 2]"
  by (simp add: upt_rec)

lemma window3_double:
  "findOptimalChargingWindow double demo_clock ev2 (Finite 3) one_cheap_hour = Some (Inr 21)"
  by (simp add: findOptimalChargingWindow_def ev2_def getHours_demo windowLoop.simps
      calculateChargingCost_finite length_one_cheap_hour machine_cost_def upt3
      price_one_cheap_hour scan_roundings)

lemma window3_exact:
  "findOptimalChargingWindow exact demo_clock ev2 (Finite 3) one_cheap_hour = Some (Inr 20)"
  by (simp add: findOptimalChargingWindow_def ev2_def getHours_demo windowLoop.simps
      calculateChargingCost_finite length_one_cheap_hour machine_cost_def upt3
      price_one_cheap_hour exact_def)

subsection \<open>The effects of a call\<close>

text \<open>
  With a frozen clock every function with effects returns what its counterpart with
  the clock as a value returns, and leaves the runtime with more reads counted; the
  optimizer moreover leaves one more array, the sorted copy of the fleet.
\<close>

lemma reads_advanced [simp]:
  "\<exists>n. rt\<lparr>clock_reads := m\<rparr> = rt\<lparr>clock_reads := n\<rparr>"
  by (rule exI [of _ m]) simp

lemma reads_kept [simp]: "\<exists>n. rt = rt\<lparr>clock_reads := n\<rparr>"
  by (rule exI [of _ "clock_reads rt"]) simp

lemma read_clock_frozen:
  "frozen wall c \<Longrightarrow> read_clock wall rt = (c, rt\<lparr>clock_reads := clock_reads rt + 1\<rparr>)"
  by (simp add: read_clock_def frozen_def)

lemma calculatePriority_io_frozen:
  assumes "frozen wall c"
  shows "\<exists>n. calculatePriority_io wall fl v rt = (calculatePriority fl c v, rt\<lparr>clock_reads := n\<rparr>)"
proof (cases "soc v < 30 \<and> 0 < length (trip_schedule v)")
  case True
  then show ?thesis
    by (auto simp: calculatePriority_io_def calculatePriority_def read_clock_frozen [OF assms])
next
  case False
  have "rt = rt\<lparr>clock_reads := clock_reads rt\<rparr>" by simp
  with False show ?thesis
    by (auto simp: calculatePriority_io_def calculatePriority_def intro: exI [of _ "clock_reads rt"])
qed

lemma comparePriority_io_frozen:
  assumes "frozen wall c"
  shows "\<exists>n. comparePriority_io wall fl a b rt = (comparePriority fl c a b, rt\<lparr>clock_reads := n\<rparr>)"
proof -
  obtain n where a: "calculatePriority_io wall fl a rt =
      (calculatePriority fl c a, rt\<lparr>clock_reads := n\<rparr>)"
    using calculatePriority_io_frozen [OF assms] by blast
  obtain m where b: "calculatePriority_io wall fl b (rt\<lparr>clock_reads := n\<rparr>) =
      (calculatePriority fl c b, rt\<lparr>clock_reads := n\<rparr>\<lparr>clock_reads := m\<rparr>)"
    using calculatePriority_io_frozen [OF assms] by blast
  show ?thesis
    by (simp add: comparePriority_io_def comparePriority_def a b)
qed

lemma insert_by_io_pure:
  assumes "\<And>a b rt. \<exists>n. cmp_io a b rt = (cmp a b, rt\<lparr>clock_reads := n\<rparr>)"
  shows "\<exists>n. insert_by_io cmp_io a bs rt = (insert_by cmp a bs, rt\<lparr>clock_reads := n\<rparr>)"
proof (induction bs arbitrary: rt)
  case Nil
  have "rt = rt\<lparr>clock_reads := clock_reads rt\<rparr>" by simp
  then show ?case by (auto intro: exI [of _ "clock_reads rt"])
next
  case (Cons b bs)
  obtain n where c: "cmp_io a b rt = (cmp a b, rt\<lparr>clock_reads := n\<rparr>)"
    using assms by blast
  obtain m where r: "insert_by_io cmp_io a bs (rt\<lparr>clock_reads := n\<rparr>) =
      (insert_by cmp a bs, rt\<lparr>clock_reads := n\<rparr>\<lparr>clock_reads := m\<rparr>)"
    using Cons.IH by blast
  show ?case
    by (cases "cmp a b \<le> 0") (simp_all add: c r)
qed

lemma js_sort_io_pure:
  assumes "\<And>a b rt. \<exists>n. cmp_io a b rt = (cmp a b, rt\<lparr>clock_reads := n\<rparr>)"
  shows "\<exists>n. js_sort_io cmp_io as rt = (js_sort cmp as, rt\<lparr>clock_reads := n\<rparr>)"
proof (induction as arbitrary: rt)
  case Nil
  have "rt = rt\<lparr>clock_reads := clock_reads rt\<rparr>" by simp
  then show ?case by (auto simp: js_sort_def intro: exI [of _ "clock_reads rt"])
next
  case (Cons a as)
  obtain n where s: "js_sort_io cmp_io as rt = (js_sort cmp as, rt\<lparr>clock_reads := n\<rparr>)"
    using Cons.IH by blast
  obtain m where i: "insert_by_io cmp_io a (js_sort cmp as) (rt\<lparr>clock_reads := n\<rparr>) =
      (insert_by cmp a (js_sort cmp as), rt\<lparr>clock_reads := n\<rparr>\<lparr>clock_reads := m\<rparr>)"
    using insert_by_io_pure [of cmp_io cmp, OF assms] by blast
  show ?case
    using i by (simp add: s js_sort_def)
qed

lemma findOptimalChargingWindow_io_frozen:
  assumes "frozen wall c"
  shows "\<exists>n. findOptimalChargingWindow_io wall fl v d pricing rt =
           (findOptimalChargingWindow fl c v d pricing, rt\<lparr>clock_reads := n\<rparr>)"
  by (auto simp: findOptimalChargingWindow_io_def findOptimalChargingWindow_def Let_def
      read_clock_frozen [OF assms])

lemma buildPlan_io_frozen:
  assumes "frozen wall c"
  shows "\<exists>n. buildPlan_io wall fl pricing v E s md rt =
           (buildPlan fl c pricing v E s md, rt\<lparr>clock_reads := n\<rparr>)"
proof -
  let ?d = "js_quotient fl E (min (max_power s) (charging_speed v))"
  obtain n where p: "calculatePriority_io wall fl v rt =
      (calculatePriority fl c v, rt\<lparr>clock_reads := n\<rparr>)"
    using calculatePriority_io_frozen [OF assms] by blast
  obtain m where w: "findOptimalChargingWindow_io wall fl v ?d pricing (rt\<lparr>clock_reads := n\<rparr>) =
      (findOptimalChargingWindow fl c v ?d pricing, rt\<lparr>clock_reads := n\<rparr>\<lparr>clock_reads := m\<rparr>)"
    using findOptimalChargingWindow_io_frozen [OF assms] by blast
  show ?thesis
    by (auto simp: buildPlan_io_def buildPlan_def Let_def p w read_clock_frozen [OF assms]
        split: option.splits sum.splits)
qed

lemma scheduleLoop_io_frozen:
  assumes "frozen wall c"
  shows "\<exists>n. scheduleLoop_io wall fl avail pricing vs A plans rt =
           (scheduleLoop fl c avail pricing vs A plans, rt\<lparr>clock_reads := n\<rparr>)"
proof (induction vs arbitrary: A plans rt)
  case Nil
  have "rt = rt\<lparr>clock_reads := clock_reads rt\<rparr>" by simp
  then show ?case by (auto intro: exI [of _ "clock_reads rt"])
next
  case (Cons v vs)
  show ?case
  proof (cases rule: scheduleLoop_cases [of fl v avail A])
    case skip
    then have "scheduleLoop_io wall fl avail pricing (v # vs) A plans rt =
        scheduleLoop_io wall fl avail pricing vs A plans rt"
      by auto
    with Cons show ?thesis by (simp add: scheduleLoop_skip [OF skip])
  next
    case (assign s md)
    obtain n where b: "buildPlan_io wall fl pricing v (energyNeeded fl v) s md rt =
        (buildPlan fl c pricing v (energyNeeded fl v) s md, rt\<lparr>clock_reads := n\<rparr>)"
      using buildPlan_io_frozen [OF assms] by blast
    show ?thesis
    proof (cases "buildPlan fl c pricing v (energyNeeded fl v) s md")
      case None
      with assign b show ?thesis by (simp add: scheduleLoop_assign [OF assign])
    next
      case (Some r)
      show ?thesis
      proof (cases r)
        case (Inl e)
        with Some assign b show ?thesis by (simp add: scheduleLoop_assign [OF assign])
      next
        case (Inr plan)
        obtain m where "scheduleLoop_io wall fl avail pricing vs
            (A(station_id s \<mapsto> vehicle_id v)) (plans @ [plan]) (rt\<lparr>clock_reads := n\<rparr>) =
          (scheduleLoop fl c avail pricing vs (A(station_id s \<mapsto> vehicle_id v)) (plans @ [plan]),
           rt\<lparr>clock_reads := n\<rparr>\<lparr>clock_reads := m\<rparr>)"
          using Cons by blast
        with Some Inr assign b show ?thesis
          by (simp add: scheduleLoop_assign [OF assign] del: fun_upd_apply)
      qed
    qed
  qed
qed

lemma sort_array_frozen:
  assumes "frozen wall c" and "a < length (vehicle_arrays rt)"
  shows "\<exists>n. sort_array (comparePriority_io wall fl) a rt =
           (a, rt\<lparr>clock_reads := n,
                  vehicle_arrays := (vehicle_arrays rt)
                    [a := js_sort (comparePriority fl c) (vehicle_arrays rt ! a)]\<rparr>)"
proof -
  obtain n where "js_sort_io (comparePriority_io wall fl) (vehicle_arrays rt ! a) rt =
      (js_sort (comparePriority fl c) (vehicle_arrays rt ! a), rt\<lparr>clock_reads := n\<rparr>)"
    using js_sort_io_pure [of "comparePriority_io wall fl" "comparePriority fl c",
        OF comparePriority_io_frozen [OF assms(1)]]
    by blast
  then show ?thesis
    by (auto simp: sort_array_def intro: exI [of _ n])
qed

lemma optimize_io_frozen:
  assumes "frozen wall c"
  shows "\<exists>n. optimizeChargingSchedule_io wall fl fleet stations pricing rt =
           (optimizeChargingSchedule fl c (vehicle_arrays rt ! fleet) stations pricing,
            rt\<lparr>clock_reads := n,
               vehicle_arrays :=
                 vehicle_arrays rt @ [sortedVehicles fl c (vehicle_arrays rt ! fleet)]\<rparr>)"
proof -
  let ?xs = "filter needsCharge (vehicle_arrays rt ! fleet)"
  let ?a = "length (vehicle_arrays rt)"
  let ?rt1 = "rt\<lparr>vehicle_arrays := vehicle_arrays rt @ [?xs]\<rparr>"
  let ?sorted = "js_sort (comparePriority fl c) ?xs"
  have f: "filter_array needsCharge fleet rt = (?a, ?rt1)"
    by (simp add: filter_array_def)
  have a: "?a < length (vehicle_arrays ?rt1)" by simp
  obtain n where s: "sort_array (comparePriority_io wall fl) ?a ?rt1 =
      (?a, rt\<lparr>clock_reads := n, vehicle_arrays := vehicle_arrays rt @ [?sorted]\<rparr>)"
    using sort_array_frozen [OF assms a, of fl] by auto
  let ?rt2 = "rt\<lparr>clock_reads := n, vehicle_arrays := vehicle_arrays rt @ [?sorted]\<rparr>"
  have r: "vehicle_arrays ?rt2 ! ?a = ?sorted" by simp
  obtain m where l: "scheduleLoop_io wall fl (filter available stations) pricing ?sorted
        Map.empty [] ?rt2 =
      (scheduleLoop fl c (filter available stations) pricing ?sorted Map.empty [],
       ?rt2\<lparr>clock_reads := m\<rparr>)"
    using scheduleLoop_io_frozen [OF assms] by blast
  have "optimizeChargingSchedule_io wall fl fleet stations pricing rt =
           (optimizeChargingSchedule fl c (vehicle_arrays rt ! fleet) stations pricing,
            ?rt2\<lparr>clock_reads := m\<rparr>)"
    unfolding optimizeChargingSchedule_io_def optimizeChargingSchedule_def Let_def f s
      prod.case r l sortedVehicles_def
    by (simp split: option.splits sum.splits prod.splits)
  then show ?thesis
    by (intro exI [of _ m]) (simp add: sortedVehicles_def)
qed

subsection \<open>Two calls, run\<close>

text \<open>
  Two calls on the worked fleet with a frozen clock, and two calls on a single vehicle
  with a clock that ticks: the start time of a high priority plan is the time of the
  call, so the second call returns another plan.
\<close>

lemma frozen_demo: "frozen (\<lambda>k. demo_clock) demo_clock"
  by (simp add: frozen_def)

lemma ticking_hour: "k < 1000 \<Longrightarrow> getHours (ticking k) = 10"
proof -
  assume "k < 1000"
  then have "(36000000 + int k) div 3600000 = 10" by linarith
  then show ?thesis by (simp add: getHours_def ticking_def)
qed

lemma ticking_trip:
  "hoursUntilTrip exact (ticking k) (trip_schedule ev1 ! 0) < 4"
  by (simp add: hoursUntilTrip_def exact_def ticking_def ev1_def)

lemma ticking_priority:
  "calculatePriority_io ticking exact ev1 rt = (High, rt\<lparr>clock_reads := clock_reads rt + 1\<rparr>)"
proof -
  have "soc ev1 < 30" "0 < length (trip_schedule ev1)" by (simp_all add: ev1_def)
  then show ?thesis
    by (simp add: calculatePriority_io_def read_clock_def)
qed

lemma ticking_window:
  assumes "clock_reads rt < 1000"
  shows "findOptimalChargingWindow_io ticking exact ev1 (Finite 2) demo_pricing rt =
           (Some (Inr 10), rt\<lparr>clock_reads := clock_reads rt + 2\<rparr>)"
proof -
  have "0 < length (trip_schedule ev1)" by (simp add: ev1_def)
  then show ?thesis
    using ticking_trip [of "Suc (clock_reads rt)"]
    by (simp add: findOptimalChargingWindow_io_def read_clock_def ticking_hour [OF assms]
        exact_def)
qed

lemma ticking_plan:
  assumes "clock_reads rt < 900"
  shows "buildPlan_io ticking exact demo_pricing ev1 48 cs1 0 rt =
           (Some (Inr (plan1\<lparr>start_time := Valid (36000003 + int (clock_reads rt)),
                               end_time := Valid (43200003 + int (clock_reads rt))\<rparr>)),
            rt\<lparr>clock_reads := clock_reads rt + 4\<rparr>)"
proof -
  have q: "js_quotient exact 48 (min (max_power cs1) (charging_speed ev1)) = Finite 2"
    by (simp add: js_quotient_def exact_def cs1_def ev1_def)
  have cost: "calculateChargingCost exact 48 10 (Finite 2) demo_pricing = Some (Inr 5.76)"
    by (simp add: calculateChargingCost_finite machine_cost_exact length_demo_pricing cost2
        price_demo_pricing)
  have w: "findOptimalChargingWindow_io ticking exact ev1 (Finite 2) demo_pricing
             (rt\<lparr>clock_reads := clock_reads rt + 1\<rparr>) =
           (Some (Inr 10), rt\<lparr>clock_reads := clock_reads rt + 3\<rparr>)"
    using ticking_window [of "rt\<lparr>clock_reads := clock_reads rt + 1\<rparr>"] assms by simp
  have ids: "vehicle_id ev1 = ''EV-001''" "station_id cs1 = ''CS-001''"
    by (simp_all add: ev1_def cs1_def)
  show ?thesis
    unfolding buildPlan_io_def Let_def q ticking_priority prod.case w
    using assms
    by (simp add: read_clock_def cost plan1_def ids ticking_def time_clip_def exact_def
        js_round_def)
qed

lemma ticking_call:
  assumes "clock_reads rt < 900" and "vehicle_arrays rt ! 0 = [ev1]"
  shows "optimizeChargingSchedule_io ticking exact 0 [cs1] demo_pricing rt =
    (Some (Inr [plan1\<lparr>start_time := Valid (36000003 + int (clock_reads rt)),
                        end_time := Valid (43200003 + int (clock_reads rt))\<rparr>]),
     rt\<lparr>clock_reads := clock_reads rt + 4,
        vehicle_arrays := vehicle_arrays rt @ [[ev1]]\<rparr>)"
proof -
  have e: "energyNeeded exact ev1 = 48" by (rule energy_demo)
  have n: "nearestLoop exact [cs1] Map.empty ev1 None = Some (cs1, 0)"
    by (simp add: calculateDistance_def exact_def cs1_def ev1_def)
  have av: "filter available [cs1] = [cs1]" by (simp add: cs1_def)
  have nc: "filter needsCharge [ev1] = [ev1]" by (simp add: needsCharge_def ev1_def)
  let ?rt1 = "rt\<lparr>vehicle_arrays := vehicle_arrays rt @ [[ev1]]\<rparr>"
  have b: "buildPlan_io ticking exact demo_pricing ev1 48 cs1 0 ?rt1 =
           (Some (Inr (plan1\<lparr>start_time := Valid (36000003 + int (clock_reads rt)),
                               end_time := Valid (43200003 + int (clock_reads rt))\<rparr>)),
            ?rt1\<lparr>clock_reads := clock_reads rt + 4\<rparr>)"
    using ticking_plan [of ?rt1] assms(1) by simp
  show ?thesis
    unfolding optimizeChargingSchedule_io_def Let_def av filter_array_def sort_array_def
    by (simp add: assms(2) nc [simplified] e n b del: nearestLoop.simps)
qed

lemma ticking_clock_differs:
  "optimizeChargingSchedule_io ticking exact 0 [cs1] demo_pricing
       \<lparr>clock_reads = 0, vehicle_arrays = [[ev1]]\<rparr> =
     (Some (Inr [plan1\<lparr>start_time := Valid 36000003, end_time := Valid 43200003\<rparr>]),
      \<lparr>clock_reads = 4, vehicle_arrays = [[ev1], [ev1]]\<rparr>) \<and>
   optimizeChargingSchedule_io ticking exact 0 [cs1] demo_pricing
       \<lparr>clock_reads = 4, vehicle_arrays = [[ev1], [ev1]]\<rparr> =
     (Some (Inr [plan1\<lparr>start_time := Valid 36000007, end_time := Valid 43200007\<rparr>]),
      \<lparr>clock_reads = 8, vehicle_arrays = [[ev1], [ev1], [ev1]]\<rparr>)"
  using ticking_call [of "\<lparr>clock_reads = 0, vehicle_arrays = [[ev1]]\<rparr>"]
        ticking_call [of "\<lparr>clock_reads = 4, vehicle_arrays = [[ev1], [ev1]]\<rparr>"]
  by simp

subsection \<open>Reading and updating the table\<close>

text \<open>
  What \<open>getQValue\<close> returns and how it, the reads of a list of actions and
  \<open>updateQValue\<close> change the entries of the table.
\<close>

lemma getQValue_fst: "fst (getQValue this s a) = stored_value this s a"
  by (auto simp: getQValue_def stored_value_def entry_def Let_def dom_def split: option.splits)

lemma getQValue_entry:
  "entry (snd (getQValue this s a)) k ak =
     (if k = stateToKey s \<and> ak = actionToKey a \<and> entry this k ak = None
      then Some (fresh_entry k ak) else entry this k ak)"
  by (auto simp: getQValue_def entry_def fresh_entry_def Let_def dom_def split: option.splits)

lemma getQValue_history: "rewardHistory (snd (getQValue this s a)) = rewardHistory this"
  by (simp add: getQValue_def Let_def)

lemma getQValue_dom: "dom (qTable (snd (getQValue this s a))) = insert (stateToKey s) (dom (qTable this))"
  by (auto simp: getQValue_def Let_def)

lemma getQValue_stored_value:
  "stored_value (snd (getQValue this s a)) s2 a2 = stored_value this s2 a2"
  by (auto simp: stored_value_def getQValue_entry fresh_entry_def)

lemma getQValue_stored_visits:
  "stored_visits (snd (getQValue this s a)) s2 a2 = stored_visits this s2 a2"
  by (auto simp: stored_visits_def getQValue_entry fresh_entry_def)

lemma getQValues_fst: "fst (getQValues this s as) = map (stored_value this s) as"
proof (induction as arbitrary: this)
  case Nil
  show ?case by simp
next
  case (Cons a as)
  show ?case
    using Cons [of "snd (getQValue this s a)"] getQValue_fst [of this s a]
    by (simp add: split_beta Let_def getQValue_stored_value)
qed

lemma getQValues_entry:
  "entry (snd (getQValues this s as)) k ak =
     (if k = stateToKey s \<and> ak \<in> actionToKey ` set as \<and> entry this k ak = None
      then Some (fresh_entry k ak) else entry this k ak)"
proof (induction as arbitrary: this)
  case Nil
  show ?case by simp
next
  case (Cons a as)
  show ?case
    using Cons [of "snd (getQValue this s a)"]
    by (auto simp: split_beta Let_def getQValue_entry)
qed

lemma getQValues_history: "rewardHistory (snd (getQValues this s as)) = rewardHistory this"
  by (induction as arbitrary: this) (simp_all add: split_beta Let_def getQValue_history)

lemma getQValues_dom:
  "dom (qTable (snd (getQValues this s as))) =
     (if as = [] then dom (qTable this) else insert (stateToKey s) (dom (qTable this)))"
  by (induction as arbitrary: this) (auto simp: split_beta Let_def getQValue_dom)

lemma math_max_map: "as \<noteq> [] \<Longrightarrow> math_max (map f as) = Max (f ` set as)"
  by (cases as) (simp_all add: math_max_def Max.set_eq_fold [symmetric])

lemma length_getPossibleActions: "length (getPossibleActions s) = 10"
  by (simp add: getPossibleActions_def)

lemma updateQValue_unfold:
  "updateQValue this s a r s' =
     (let t1 = snd (getQValue this s a);
          t2 = snd (getQValues t1 s' (getPossibleActions s'));
          newQ = stored_value this s a + learningRate * (r + discountFactor *
                   Max (stored_value this s' ` set (getPossibleActions s')) - stored_value this s a);
          actions = the (qTable t2 (stateToKey s));
          qValue = the (actions (actionToKey a))
      in t2\<lparr>qTable := (qTable t2)(stateToKey s \<mapsto> actions(actionToKey a \<mapsto>
               qValue\<lparr>qv_value := newQ, qv_visits := qv_visits qValue + 1\<rparr>)),
             rewardHistory := rewardHistory t2 @ [r]\<rparr>)"
proof -
  have ne: "getPossibleActions s' \<noteq> []"
    using length_getPossibleActions [of s'] by auto
  have mx: "math_max (fst (getQValues (snd (getQValue this s a)) s' (getPossibleActions s'))) =
      Max (stored_value this s' ` set (getPossibleActions s'))"
    unfolding getQValues_fst math_max_map [OF ne]
    by (simp add: getQValue_stored_value)
  show ?thesis
    unfolding updateQValue_def Let_def split_beta mx getQValue_fst ..
qed

lemma getQValues_after_getQValue_entry:
  "entry (snd (getQValues (snd (getQValue this s a)) s' as)) k ak =
     (if k = stateToKey s \<and> ak = actionToKey a \<and> entry this k ak = None
      then Some (fresh_entry k ak)
      else if k = stateToKey s' \<and> ak \<in> actionToKey ` set as \<and> entry this k ak = None
      then Some (fresh_entry k ak) else entry this k ak)"
proof -
  let ?t1 = "snd (getQValue this s a)"
  let ?A = "k = stateToKey s \<and> ak = actionToKey a \<and> entry this k ak = None"
  have 1: "entry ?t1 k ak = (if ?A then Some (fresh_entry k ak) else entry this k ak)"
    by (rule getQValue_entry)
  have 2: "entry (snd (getQValues ?t1 s' as)) k ak =
     (if k = stateToKey s' \<and> ak \<in> actionToKey ` set as \<and> entry ?t1 k ak = None
      then Some (fresh_entry k ak) else entry ?t1 k ak)"
    by (rule getQValues_entry)
  show ?thesis
  proof (cases ?A)
    case True
    have "entry ?t1 k ak = Some (fresh_entry k ak)"
      by (subst 1, subst if_P [OF True]) (rule refl)
    then have "entry (snd (getQValues ?t1 s' as)) k ak = Some (fresh_entry k ak)"
      by (subst 2) simp
    then show ?thesis
      by (subst if_P [OF True])
  next
    case False
    have 3: "entry ?t1 k ak = entry this k ak"
      by (subst 1, subst if_not_P [OF False]) (rule refl)
    show ?thesis
      by (subst 2, subst if_not_P [OF False], simp only: 3)
  qed
qed

lemma updateQValue_entry:
  "entry (updateQValue this s a r s') k ak =
     (if k = stateToKey s \<and> ak = actionToKey a
      then Some ((case entry this k ak of None \<Rightarrow> fresh_entry k ak | Some q \<Rightarrow> q)
             \<lparr>qv_value := stored_value this s a +
                 learningRate * (r + discountFactor *
                   Max (stored_value this s' ` set (getPossibleActions s')) - stored_value this s a),
               qv_visits := stored_visits this s a + 1\<rparr>)
      else if k = stateToKey s' \<and> ak \<in> actionToKey ` set (getPossibleActions s') \<and>
              entry this k ak = None
      then Some (fresh_entry k ak) else entry this k ak)"
proof -
  define t2 where "t2 = snd (getQValues (snd (getQValue this s a)) s' (getPossibleActions s'))"
  define old where "old = (case entry this (stateToKey s) (actionToKey a) of
              None \<Rightarrow> fresh_entry (stateToKey s) (actionToKey a) | Some q \<Rightarrow> q)"
  define newQ where "newQ = stored_value this s a + learningRate * (r + discountFactor *
                   Max (stored_value this s' ` set (getPossibleActions s')) - stored_value this s a)"
  note t2 = getQValues_after_getQValue_entry [of this s a s' "getPossibleActions s'", folded t2_def]
  have e2: "entry t2 (stateToKey s) (actionToKey a) = Some old"
  proof (cases "entry this (stateToKey s) (actionToKey a)")
    case None
    then show ?thesis unfolding old_def by (simp add: t2)
  next
    case (Some q)
    then show ?thesis unfolding old_def by (simp add: t2)
  qed
  then obtain m where m: "qTable t2 (stateToKey s) = Some m" and ma: "m (actionToKey a) = Some old"
    unfolding entry_def by (cases "qTable t2 (stateToKey s)") simp_all
  have vis: "qv_visits old = stored_visits this s a"
    unfolding old_def stored_visits_def fresh_entry_def
    by (cases "entry this (stateToKey s) (actionToKey a)") simp_all
  have upd: "updateQValue this s a r s' =
      t2\<lparr>qTable := (qTable t2)(stateToKey s \<mapsto> m(actionToKey a \<mapsto>
              old\<lparr>qv_value := newQ, qv_visits := stored_visits this s a + 1\<rparr>)),
           rewardHistory := rewardHistory t2 @ [r]\<rparr>"
    unfolding updateQValue_unfold Let_def t2_def [symmetric] newQ_def [symmetric]
    by (simp only: m ma option.sel vis)
  show ?thesis
  proof (cases "k = stateToKey s \<and> ak = actionToKey a")
    case True
    have "entry (updateQValue this s a r s') k ak =
        Some (old\<lparr>qv_value := newQ, qv_visits := stored_visits this s a + 1\<rparr>)"
      unfolding upd entry_def using True by simp
    with True show ?thesis
      unfolding old_def newQ_def by (simp cong: option.case_cong)
  next
    case False
    have "entry (updateQValue this s a r s') k ak = entry t2 k ak"
    proof (cases "k = stateToKey s")
      case True
      with False have "ak \<noteq> actionToKey a" by simp
      with True m show ?thesis unfolding upd entry_def by simp
    next
      case F: False
      then show ?thesis unfolding upd entry_def by simp
    qed
    also have "\<dots> = (if k = stateToKey s' \<and> ak \<in> actionToKey ` set (getPossibleActions s') \<and>
              entry this k ak = None
      then Some (fresh_entry k ak) else entry this k ak)"
    proof -
      from False
      have "\<not> (k = stateToKey s \<and> ak = actionToKey a \<and> entry this k ak = None)" by blast
      then show ?thesis
        by (subst t2, subst if_not_P) (assumption, rule refl)
    qed
    finally show ?thesis
      by (subst if_not_P [OF False])
  qed
qed

lemma updateQValue_history:
  "rewardHistory (updateQValue this s a r s') = rewardHistory this @ [r]"
  unfolding updateQValue_unfold Let_def
  by (simp add: getQValues_history getQValue_history)

subsection \<open>Lazy extension\<close>








lemma entry_new_Agent: "entry new_Agent k ak = None"
  by (simp add: entry_def new_Agent_def)

lemma stored_new_Agent: "stored_value new_Agent s a = 0" "stored_visits new_Agent s a = 0"
  by (simp_all add: stored_value_def stored_visits_def entry_new_Agent)




section \<open>Properties of the scheduler\<close>

text \<open>
  C1. No two plans of the list returned by \<open>optimizeChargingSchedule\<close> have the same
  \<open>station_id\<close>: a station assigned to a vehicle is not selected again in the same
  call. This holds in every arithmetic, and for every clock, fleet, station list and
  price table for which the call returns.
\<close>

theorem no_double_booking:
  assumes "optimizeChargingSchedule fl c fleet stations pricing = Some (Inr plans)"
  shows "distinct (map plan_station_id plans)"
proof -
  from optimize_Inr [OF assms] obtain A where
    run: "scheduleLoop fl c (filter available stations) pricing (sortedVehicles fl c fleet) Map.empty []
         = Some (Inr (A, plans))" ..
  from scheduleLoop_result [OF run] obtain new where
    "plans = [] @ new" "distinct (map plan_station_id new)"
    by blast
  then show ?thesis by simp
qed

theorem no_double_booking_witness:
  "optimizeChargingSchedule exact demo_clock demo_fleet demo_stations demo_pricing = Some (Inr [plan1, plan2])
   \<and> distinct (map plan_station_id [plan1, plan2])"
  using no_double_booking [OF demo_run] demo_run by simp

text \<open>
  C2, as amended. Every plan returned by \<open>optimizeChargingSchedule\<close> belongs to a
  vehicle of the fleet whose energy need, \<open>battery_capacity * (90 - soc) / 100\<close> as the
  machine computes it, is strictly greater than 0. The \<open>energy_to_charge\<close> of the plan
  is that need rounded to one decimal place the way the code rounds it,
  \<open>Math.round(need * 10) / 10\<close> with the product and the quotient in machine
  arithmetic. In the arithmetic of the doubles the van with its 2.8 kWh battery at
  2.5 percent is given 2.4 kWh (lemma \<open>van_run\<close>).
\<close>

theorem energy_to_charge_rounded:
  assumes "optimizeChargingSchedule fl c fleet stations pricing = Some (Inr plans)"
    and "p \<in> set plans"
  shows "\<exists>v\<in>set fleet. plan_vehicle_id p = vehicle_id v \<and>
           0 < fl (fl (battery_capacity v * fl (90 - soc v)) / 100) \<and>
           energy_to_charge p =
             fl (js_round (fl (fl (fl (battery_capacity v * fl (90 - soc v)) / 100) * 10)) / 10)"
proof -
  from optimize_plan_vehicle [OF assms(1)] assms(2) obtain v where v: "v \<in> set fleet"
    "plan_vehicle_id p = vehicle_id v" "0 < energyNeeded fl v"
    "energy_to_charge p = fl (js_round (fl (energyNeeded fl v * 10)) / 10)"
    by blast
  have e: "energyNeeded fl v = fl (fl (battery_capacity v * fl (90 - soc v)) / 100)"
    by (simp add: energyNeeded_def)
  show ?thesis
    using v unfolding e by blast
qed

theorem energy_to_charge_rounded_witness:
  "optimizeChargingSchedule exact demo_clock demo_fleet demo_stations demo_pricing =
     Some (Inr [plan1, plan2])
   \<and> plan1 \<in> set [plan1, plan2]
   \<and> (\<exists>v\<in>set demo_fleet. plan_vehicle_id plan1 = vehicle_id v \<and>
           0 < exact (exact (battery_capacity v * exact (90 - soc v)) / 100) \<and>
           energy_to_charge plan1 =
             exact (js_round (exact (exact (exact (battery_capacity v * exact (90 - soc v)) / 100)
               * 10)) / 10))
   \<and> energy_to_charge plan1 = 48"
  using energy_to_charge_rounded [OF demo_run, of plan1] demo_run by (simp add: plan1_def)

text \<open>
  C2, as stated, fails: a vehicle with a 0.4 kWh battery at 79 percent needs 0.044 kWh,
  passes the check \<open>energyNeeded <= 0\<close>, and gets a plan whose \<open>energy_to_charge\<close>
  is 0, not strictly greater than 0.
\<close>

theorem energy_to_charge_can_be_zero:
  "optimizeChargingSchedule exact demo_clock [scooter] [cs2] demo_pricing = Some (Inr [scooter_plan])
   \<and> 0 < battery_capacity scooter * (90 - soc scooter) / 100
   \<and> \<not> 0 < energy_to_charge scooter_plan"
  using scooter_run by (simp add: scooter_plan_def scooter_def)

text \<open>
  C3. In every arithmetic, \<open>calculatePriority\<close> returns the tier of the ordered rules of the specification,
  the first rule that matches: high if soc < 30 and the next trip departs within 6 hours,
  high if soc < 30 otherwise, medium if soc < 60 and a trip is scheduled, low otherwise.
  So the tier is high exactly when soc < 30, and medium exactly when soc is from 30 up to
  60 and a trip is scheduled.
\<close>

theorem calculatePriority_follows_rules:
  "calculatePriority fl c vehicle = priority_rules fl c vehicle \<and>
   (calculatePriority fl c vehicle = High) = (soc vehicle < 30) \<and>
   (calculatePriority fl c vehicle = Medium) =
      (30 \<le> soc vehicle \<and> soc vehicle < 60 \<and> trip_schedule vehicle \<noteq> [])"
  by (cases "trip_schedule vehicle")
     (auto simp: calculatePriority_def priority_rules_def next_trip_within_def)



text \<open>
  C5. For a positive duration \<open>d\<close> and a price table of 24 entries,
  \<open>calculateChargingCost E h d pricing\<close> returns the sum over \<open>i = 0 .. ceil(d) - 1\<close> of
  \<open>min (E / d) E * price[(h + i) mod 24]\<close>: the same amount per bucket, once per bucket.
  In exact arithmetic it is that sum; in every arithmetic it is that sum accumulated
  bucket by bucket from the start hour, the quotient, each product and each partial sum
  rounded.
\<close>

theorem calculateChargingCost_buckets:
  assumes "0 < d" and "length pricing = 24"
  shows "calculateChargingCost exact E h (Finite d) pricing =
           Some (Inr (\<Sum>i = 0..<nat \<lceil>d\<rceil>. min (E / d) E * price (pricing ! ((h + i) mod 24))))
         \<and> calculateChargingCost fl E h (Finite d) pricing =
           Some (Inr (foldl (\<lambda>totalCost i.
              fl (totalCost + fl (min (fl (E / d)) E * price (pricing ! ((h + i) mod 24)))))
              0 [0..<nat \<lceil>d\<rceil>]))"
proof -
  have len: "24 \<le> length pricing" using assms(2) by simp
  have "calculateChargingCost exact E h (Finite d) pricing =
          Some (Inr (hourly_cost_model E h d pricing))"
    by (simp add: calculateChargingCost_finite [OF len] machine_cost_exact)
  moreover have "calculateChargingCost fl E h (Finite d) pricing =
          Some (Inr (machine_cost fl E h d pricing))"
    by (rule calculateChargingCost_finite [OF len])
  ultimately show ?thesis
    by (simp add: hourly_cost_model_def machine_cost_def)
qed

theorem calculateChargingCost_buckets_witness:
  "(0::real) < 2 \<and> length demo_pricing = 24 \<and>
   calculateChargingCost exact 48 10 (Finite 2) demo_pricing = Some (Inr 5.76)"
proof -
  have "nat \<lceil>2::real\<rceil> = Suc (Suc 0)" by simp
  then show ?thesis
    using calculateChargingCost_buckets [of 2 demo_pricing 48 10 exact]
    by (simp add: length_demo_pricing price_demo_pricing)
qed

text \<open>
  C6. With the clock frozen, two calls of \<open>optimizeChargingSchedule\<close> one after the
  other, on the same fleet array, stations and price table, have the same result: the
  same plan list with the same plans in the same order, or the same error, or no return.
  The second call starts in the runtime the first one leaves, with more reads of the
  clock counted and one more array allocated; neither shows in the result. The first
  call leaves the fleet array as it was, since it sorts a copy, and its result is the
  result of the optimizer with the clock as a value. The frozen clock is needed: when
  the clock ticks, two calls on the same fleet differ (lemma \<open>ticking_clock_differs\<close>).
\<close>

theorem optimize_twice_same:
  assumes "frozen wall c" and "fleet < length (vehicle_arrays rt)"
    and "optimizeChargingSchedule_io wall fl fleet stations pricing rt = (r1, rt1)"
    and "optimizeChargingSchedule_io wall fl fleet stations pricing rt1 = (r2, rt2)"
  shows "r2 = r1 \<and> vehicle_arrays rt1 ! fleet = vehicle_arrays rt ! fleet \<and>
         r1 = optimizeChargingSchedule fl c (vehicle_arrays rt ! fleet) stations pricing"
proof -
  from optimize_io_frozen [OF assms(1), of fl fleet stations pricing rt] assms(3)
  obtain n where 1:
    "r1 = optimizeChargingSchedule fl c (vehicle_arrays rt ! fleet) stations pricing"
    "rt1 = rt\<lparr>clock_reads := n,
               vehicle_arrays :=
                 vehicle_arrays rt @ [sortedVehicles fl c (vehicle_arrays rt ! fleet)]\<rparr>"
    by auto
  have same: "vehicle_arrays rt1 ! fleet = vehicle_arrays rt ! fleet"
    using assms(2) by (simp add: 1(2) nth_append)
  from optimize_io_frozen [OF assms(1), of fl fleet stations pricing rt1] assms(4)
  have "r2 = optimizeChargingSchedule fl c (vehicle_arrays rt1 ! fleet) stations pricing"
    by auto
  with 1(1) same show ?thesis by simp
qed

theorem optimize_twice_same_witness:
  "frozen (\<lambda>k. demo_clock) demo_clock \<and> (0::nat) < length (vehicle_arrays demo_runtime) \<and>
   (\<exists>rt1 rt2.
      optimizeChargingSchedule_io (\<lambda>k. demo_clock) exact 0 demo_stations demo_pricing demo_runtime =
        (Some (Inr [plan1, plan2]), rt1) \<and>
      optimizeChargingSchedule_io (\<lambda>k. demo_clock) exact 0 demo_stations demo_pricing rt1 =
        (Some (Inr [plan1, plan2]), rt2) \<and>
      vehicle_arrays rt1 ! 0 = demo_fleet)"
proof -
  let ?call = "optimizeChargingSchedule_io (\<lambda>k. demo_clock) exact 0 demo_stations demo_pricing"
  have len: "(0::nat) < length (vehicle_arrays demo_runtime)"
    by (simp add: demo_runtime_def)
  have fleet: "vehicle_arrays demo_runtime ! 0 = demo_fleet"
    by (simp add: demo_runtime_def)
  obtain r1 rt1 where 1: "?call demo_runtime = (r1, rt1)" by (cases "?call demo_runtime")
  obtain r2 rt2 where 2: "?call rt1 = (r2, rt2)" by (cases "?call rt1")
  from optimize_twice_same [OF frozen_demo len 1 2]
  have "r2 = r1" "vehicle_arrays rt1 ! 0 = demo_fleet" "r1 = Some (Inr [plan1, plan2])"
    by (simp_all add: fleet demo_run)
  with 1 2 frozen_demo len show ?thesis by blast
qed




text \<open>
  C10. If the vehicle ids of the fleet are pairwise distinct, so are the vehicle ids of the
  plans \<open>optimizeChargingSchedule\<close> returns, in every arithmetic: a vehicle has at most
  one plan.
\<close>

theorem one_plan_per_vehicle:
  assumes "distinct (map vehicle_id fleet)"
    and "optimizeChargingSchedule fl c fleet stations pricing = Some (Inr plans)"
  shows "distinct (map plan_vehicle_id plans)"
proof -
  from optimize_Inr [OF assms(2)] obtain A where
    run: "scheduleLoop fl c (filter available stations) pricing (sortedVehicles fl c fleet) Map.empty []
         = Some (Inr (A, plans))" ..
  from scheduleLoop_result [OF run] obtain new where new: "plans = [] @ new"
    "distinct (map vehicle_id (sortedVehicles fl c fleet)) \<longrightarrow> distinct (map plan_vehicle_id new)"
    by blast
  have "distinct (map vehicle_id (sortedVehicles fl c fleet))"
    using assms(1) by (rule distinct_sortedVehicles)
  with new show ?thesis by simp
qed

theorem one_plan_per_vehicle_witness:
  "distinct (map vehicle_id demo_fleet) \<and>
   optimizeChargingSchedule exact demo_clock demo_fleet demo_stations demo_pricing = Some (Inr [plan1, plan2])
   \<and> distinct (map plan_vehicle_id [plan1, plan2])"
  using one_plan_per_vehicle [OF distinct_demo_fleet demo_run] distinct_demo_fleet demo_run by simp

section \<open>Properties of the agent\<close>

text \<open>
  C8. \<open>learn s a r s'\<close> replaces the value stored for \<open>(s, a)\<close> by
  \<open>Q(s,a) + 0.1 * (r + 0.95 * max Q(s',a') - Q(s,a))\<close>, the maximum ranging over the 10
  possible actions and a missing entry counting as 0, and adds 1 to the visit count of
  that entry. After the call the entry of \<open>(s, a)\<close> and the entries of \<open>s'\<close> with the 10
  actions exist, and every other entry is as before or freshly created with value 0.
\<close>

theorem learn_update:
  "stored_value (learn this s a r s') s a =
     stored_value this s a +
       0.1 * (r + 0.95 * Max (stored_value this s' ` set (getPossibleActions s')) - stored_value this s a) \<and>
   stored_visits (learn this s a r s') s a = stored_visits this s a + 1 \<and>
   length (getPossibleActions s') = 10 \<and>
   entry (learn this s a r s') (stateToKey s) (actionToKey a) \<noteq> None \<and>
   (\<forall>a'\<in>set (getPossibleActions s').
      entry (learn this s a r s') (stateToKey s') (actionToKey a') \<noteq> None) \<and>
   (\<forall>k ak. (k, ak) \<noteq> (stateToKey s, actionToKey a) \<longrightarrow>
      entry (learn this s a r s') k ak = entry this k ak \<or>
      entry this k ak = None \<and> entry (learn this s a r s') k ak = Some (fresh_entry k ak))"
proof -
  note e = updateQValue_entry [of this s a r s']
  have 1: "entry (learn this s a r s') (stateToKey s) (actionToKey a) =
      Some ((case entry this (stateToKey s) (actionToKey a) of
               None \<Rightarrow> fresh_entry (stateToKey s) (actionToKey a) | Some q \<Rightarrow> q)
             \<lparr>qv_value := stored_value this s a +
                 learningRate * (r + discountFactor *
                   Max (stored_value this s' ` set (getPossibleActions s')) - stored_value this s a),
               qv_visits := stored_visits this s a + 1\<rparr>)"
    unfolding learn_def e by simp
  have v: "stored_value (learn this s a r s') s a =
     stored_value this s a +
       0.1 * (r + 0.95 * Max (stored_value this s' ` set (getPossibleActions s')) - stored_value this s a)"
    unfolding stored_value_def [of "learn this s a r s'"] 1
    by (simp add: learningRate_def discountFactor_def)
  have n: "stored_visits (learn this s a r s') s a = stored_visits this s a + 1"
    unfolding stored_visits_def [of "learn this s a r s'"] 1 by simp
  have p: "entry (learn this s a r s') (stateToKey s) (actionToKey a) \<noteq> None"
    unfolding 1 by simp
  have q: "entry (learn this s a r s') (stateToKey s') (actionToKey a') \<noteq> None"
    if "a' \<in> set (getPossibleActions s')" for a'
  proof (cases "stateToKey s' = stateToKey s \<and> actionToKey a' = actionToKey a")
    case True
    with p show ?thesis by simp
  next
    case False
    have "actionToKey a' \<in> actionToKey ` set (getPossibleActions s')"
      using that by (rule imageI)
    then show ?thesis
      unfolding learn_def e using False
      by (cases "entry this (stateToKey s') (actionToKey a')") simp_all
  qed
  have f: "entry (learn this s a r s') k ak = entry this k ak \<or>
      entry this k ak = None \<and> entry (learn this s a r s') k ak = Some (fresh_entry k ak)"
    if "(k, ak) \<noteq> (stateToKey s, actionToKey a)" for k ak
  proof -
    from that have n: "\<not> (k = stateToKey s \<and> ak = actionToKey a)" by simp
    have "entry (learn this s a r s') k ak =
        (if k = stateToKey s' \<and> ak \<in> actionToKey ` set (getPossibleActions s') \<and>
            entry this k ak = None
         then Some (fresh_entry k ak) else entry this k ak)"
      unfolding learn_def e by (rule if_not_P [OF n])
    then show ?thesis by auto
  qed
  from v n p q f length_getPossibleActions [of s'] show ?thesis by blast
qed

theorem learn_update_witness:
  "stored_value (learn new_Agent demo_state demo_action 10 demo_next_state) demo_state demo_action = 1 \<and>
   stored_visits (learn new_Agent demo_state demo_action 10 demo_next_state) demo_state demo_action = 1 \<and>
   demo_action \<in> set (getPossibleActions demo_next_state) \<and>
   entry (learn new_Agent demo_state demo_action 10 demo_next_state)
     (stateToKey demo_next_state) (actionToKey demo_action) \<noteq> None \<and>
   (stateToKey demo_next_state, actionToKey demo_action) \<noteq> (stateToKey demo_state, actionToKey demo_action) \<and>
   entry (learn new_Agent demo_state demo_action 10 demo_next_state)
     (stateToKey demo_next_state) (actionToKey demo_action) =
       Some (fresh_entry (stateToKey demo_next_state) (actionToKey demo_action))"
proof -
  note t = learn_update [of new_Agent demo_state demo_action 10 demo_next_state]
  have mem: "demo_action \<in> set (getPossibleActions demo_next_state)"
    by (simp add: getPossibleActions_def demo_action_def)
  have ne: "(stateToKey demo_next_state, actionToKey demo_action) \<noteq>
      (stateToKey demo_state, actionToKey demo_action)"
    by (simp add: stateToKey_def demo_state_def demo_next_state_def)
  have mx: "Max (stored_value new_Agent demo_next_state ` set (getPossibleActions demo_next_state)) = 0"
    by (simp add: stored_new_Agent [abs_def] getPossibleActions_def)
  from t have "stored_value (learn new_Agent demo_state demo_action 10 demo_next_state)
      demo_state demo_action = 1"
    "stored_visits (learn new_Agent demo_state demo_action 10 demo_next_state)
      demo_state demo_action = 1"
    unfolding mx by (simp_all add: stored_new_Agent)
  moreover from t mem have "entry (learn new_Agent demo_state demo_action 10 demo_next_state)
     (stateToKey demo_next_state) (actionToKey demo_action) \<noteq> None"
    by blast
  moreover have "entry (learn new_Agent demo_state demo_action 10 demo_next_state)
     (stateToKey demo_next_state) (actionToKey demo_action) =
       Some (fresh_entry (stateToKey demo_next_state) (actionToKey demo_action))"
  proof -
    from t have "\<forall>k ak. (k, ak) \<noteq> (stateToKey demo_state, actionToKey demo_action) \<longrightarrow>
      entry (learn new_Agent demo_state demo_action 10 demo_next_state) k ak = entry new_Agent k ak \<or>
      entry new_Agent k ak = None \<and>
      entry (learn new_Agent demo_state demo_action 10 demo_next_state) k ak = Some (fresh_entry k ak)"
      by (elim conjE)
    from this [rule_format, OF ne] calculation(3) show ?thesis
      by (simp add: entry_new_Agent)
  qed
  ultimately show ?thesis
    using mem ne by blast
qed




end
